theory Spec2Isabelle
  imports Complex_Main "HOL-Library.Sublist" "HOL-Library.Word"
begin

unbundle bit_operations_syntax

section \<open>JavaScript strings\<close>

text \<open>
  A JavaScript string is a sequence of UTF-16 code units. A code unit is modelled as a
  natural number (a valid one is below 65536), so that inputs outside Latin-1, on which
  \<open>btoa\<close> throws, are part of the model. \<open>js\<close> reads an Isabelle literal as such a string.
\<close>

type_synonym jschar = nat
type_synonym jsstring = "jschar list"

definition js :: "string \<Rightarrow> jsstring" where
  "js s = map of_char s"

text \<open>
  \<open>String.prototype.toLowerCase\<close>, on the code units of Latin-1: \<open>A\<close>..\<open>Z\<close> and the
  capitals U+00C0..U+00DE (without the multiplication sign U+00D7) move up by 32. Code
  units beyond Latin-1 are left as they are; no theorem below depends on how a code unit
  is lowered, only on the same function being applied on both sides.
\<close>

definition lowerUnit :: "jschar \<Rightarrow> jschar" where
  "lowerUnit c = (if (65 \<le> c \<and> c \<le> 90) \<or> (192 \<le> c \<and> c \<le> 222 \<and> c \<noteq> 215) then c + 32 else c)"

definition toLowerCase :: "jsstring \<Rightarrow> jsstring" where
  "toLowerCase s = map lowerUnit s"

section \<open>Data model\<close>

text \<open>
  A record of the remote store is a pair of its \<open>id\<close> and its \<open>fields\<close>; a field
  the store leaves out is \<open>None\<close>.
\<close>

record storeFields =
  videoId :: "jsstring option"
  title :: "jsstring option"
  description :: "jsstring option"
  type :: "jsstring option"
  duration :: "jsstring option"
  url :: "jsstring option"
  embedUrls :: "jsstring list option"
  thumbnail :: "jsstring option"
  createdAt :: "jsstring option"
  status :: "jsstring option"
  viewCount :: "nat option"
  tags :: "jsstring list option"
  category :: "jsstring option"
  author :: "jsstring option"

type_synonym storeRecord = "jsstring \<times> storeFields"

text \<open>
  The object a parser of \<open>UniversalVideoParser\<close> returns. \<open>originalUrl\<close> is added by
  \<open>parseURL\<close> for a recognised platform and is absent (\<open>None\<close>) from the result of
  \<open>parseUnknown\<close>; \<open>thumbnail\<close> is \<open>null\<close> (\<open>None\<close>) where the store has none.
\<close>

record classified =
  videoId :: jsstring
  type :: jsstring
  embedUrls :: "jsstring list"
  thumbnail :: "jsstring option"
  title :: jsstring
  description :: jsstring
  originalUrl :: "jsstring option"

text \<open>The catalog entry that \<open>AirtableService.getAllVideos\<close> builds from a store record.\<close>

record video = classified +
  recordId :: jsstring
  duration :: jsstring
  url :: jsstring
  createdAt :: jsstring
  status :: jsstring
  viewCount :: nat
  tags :: "jsstring list"
  category :: jsstring
  author :: jsstring

text \<open>
  A record of the recently-played ledger. \<open>playedAt\<close> is the time of
  \<open>new Date().toISOString()\<close> in milliseconds, which \<open>new Date(playedAt)\<close> reads back.
\<close>

record played =
  played_id :: jsstring
  playedAt :: int
  playCount :: nat

text \<open>The statistics \<open>VideoAnalytics\<close> keeps per video; \<open>lastPlayed\<close> is \<open>null\<close> or a time.\<close>

record videoStats =
  playCount :: nat
  completionCount :: nat
  errorCount :: nat
  loadCount :: nat
  seekCount :: nat
  totalWatchTime :: real
  lastPlayed :: "int option"

type_synonym analytics = "jsstring \<Rightarrow> videoStats option"

text \<open>The fields of \<open>EnhancedVideoManager\<close> that the catalog operations read or write.\<close>

record manager =
  allVideos :: "video list"
  filteredVideos :: "video list"
  currentVideoId :: "jsstring option"
  currentSearchTerm :: jsstring
  currentSortOption :: jsstring
  currentFilters_platform :: jsstring
  recentlyPlayed :: "played list"
  stats :: analytics
  isLoading :: bool

text \<open>
  Built-ins of the JavaScript runtime whose results depend on the locale or on a parser of
  the engine are parameters of the model: \<open>String.prototype.localeCompare\<close>, the time
  value of \<open>new Date(s)\<close> and \<open>parseInt\<close> (\<open>None\<close> is \<open>NaN\<close>).
\<close>

record runtime =
  localeCompare :: "jsstring \<Rightarrow> jsstring \<Rightarrow> int"
  dateValue :: "jsstring \<Rightarrow> int option"
  parseInt :: "jsstring \<Rightarrow> int option"

text \<open>A JavaScript number that may be \<open>NaN\<close> (\<open>None\<close>).\<close>

type_synonym jsnumber = "real option"

section \<open>Recently-played ledger\<close>

text \<open>\<open>Array.prototype.findIndex\<close>; \<open>None\<close> stands for the result \<open>-1\<close>.\<close>

fun findIndex :: "('a \<Rightarrow> bool) \<Rightarrow> 'a list \<Rightarrow> nat option" where
  "findIndex P [] = None"
| "findIndex P (x # xs) = (if P x then Some 0 else map_option Suc (findIndex P xs))"

definition getRecentlyPlayedData :: "played list \<Rightarrow> jsstring \<Rightarrow> played option" where
  "getRecentlyPlayedData ledger vid = find (\<lambda>v. played_id v = vid) ledger"

text \<open>
  \<open>addToRecentlyPlayed\<close> on the ledger, the array \<open>this.recentlyPlayed\<close>: \<open>splice\<close> removes the
  record found, the new record is built (its \<open>playCount\<close> reads the ledger as it is
  after the removal), \<open>unshift\<close> puts it in front and \<open>slice(0, 50)\<close> cuts the ledger.
\<close>

definition addToRecentlyPlayed :: "int \<Rightarrow> played list \<Rightarrow> jsstring \<Rightarrow> played list" where
  "addToRecentlyPlayed now ledger vid =
     (let spliced = (case findIndex (\<lambda>v. played_id v = vid) ledger of
                       Some existingIndex \<Rightarrow>
                         take existingIndex ledger @ drop (Suc existingIndex) ledger
                     | None \<Rightarrow> ledger);
          entry = \<lparr>played_id = vid, playedAt = now,
                   playCount = (case getRecentlyPlayedData spliced vid of
                                  Some d \<Rightarrow> played.playCount d
                                | None \<Rightarrow> 0) + 1\<rparr>
      in take 50 (entry # spliced))"

section \<open>Catalog search\<close>

text \<open>
  The loop of \<open>fuzzyMatch\<close>, from index \<open>i\<close> on: the remaining text and the value of
  \<open>searchIndex\<close>. \<open>search[searchIndex]\<close> is \<open>undefined\<close> beyond the end of \<open>search\<close>
  and then equal to no code unit.
\<close>

fun fuzzyMatch_loop :: "jsstring \<Rightarrow> jsstring \<Rightarrow> nat \<Rightarrow> bool" where
  "fuzzyMatch_loop [] search searchIndex = False"
| "fuzzyMatch_loop (c # text) search searchIndex =
     (let searchIndex' =
            (if searchIndex < length search \<and> c = search ! searchIndex
             then searchIndex + 1 else searchIndex)
      in if searchIndex' = length search then True
         else fuzzyMatch_loop text search searchIndex')"

definition fuzzyMatch :: "jsstring \<Rightarrow> jsstring \<Rightarrow> bool" where
  "fuzzyMatch text search = fuzzyMatch_loop text search 0"

text \<open>\<open>String.prototype.includes\<close>.\<close>

fun str_includes :: "jsstring \<Rightarrow> jsstring \<Rightarrow> bool" where
  "str_includes [] t = (t = [])"
| "str_includes (c # s) t = (prefix t (c # s) \<or> str_includes s t)"

text \<open>\<open>Array.prototype.join\<close>; \<open>String(array)\<close> joins with a comma.\<close>

fun joinWith :: "jsstring \<Rightarrow> jsstring list \<Rightarrow> jsstring" where
  "joinWith sep [] = []"
| "joinWith sep [x] = x"
| "joinWith sep (x # y # ys) = x @ sep @ joinWith sep (y # ys)"

text \<open>The property names of \<open>CONFIG.SEARCH.SEARCH_FIELDS\<close>, in the order of the table.\<close>

datatype field = F_title | F_description | F_type | F_tags | F_category | F_author

definition SEARCH_FIELDS :: "field list" where
  "SEARCH_FIELDS = [F_title, F_description, F_type, F_tags, F_category, F_author]"

definition MIN_SEARCH_LENGTH :: nat where
  "MIN_SEARCH_LENGTH = 2"

definition FUZZY_SEARCH :: bool where
  "FUZZY_SEARCH = True"

text \<open>\<open>String(video[field] || '')\<close>: a string as it is, the array \<open>tags\<close> joined.\<close>

fun fieldString :: "video \<Rightarrow> field \<Rightarrow> jsstring" where
  "fieldString v F_title = classified.title v"
| "fieldString v F_description = classified.description v"
| "fieldString v F_type = classified.type v"
| "fieldString v F_tags = joinWith (js '','') (video.tags v)"
| "fieldString v F_category = video.category v"
| "fieldString v F_author = video.author v"

definition searchVideos :: "video list \<Rightarrow> jsstring \<Rightarrow> video list" where
  "searchVideos videos searchTerm =
     (let searchLower = toLowerCase searchTerm
      in filter (\<lambda>v. list_ex (\<lambda>f.
                   let fieldValue = toLowerCase (fieldString v f)
                   in if FUZZY_SEARCH then fuzzyMatch fieldValue searchLower
                      else str_includes fieldValue searchLower) SEARCH_FIELDS) videos)"

section \<open>Analytics and popularity\<close>

definition getVideoStats :: "analytics \<Rightarrow> jsstring \<Rightarrow> videoStats" where
  "getVideoStats st vid =
     (case st vid of
        Some s \<Rightarrow> s
      | None \<Rightarrow> \<lparr>playCount = 0, completionCount = 0, errorCount = 0, loadCount = 0,
                 seekCount = 0, totalWatchTime = 0, lastPlayed = None\<rparr>)"

text \<open>The event names \<open>updateVideoStats\<close> switches on.\<close>

datatype event = E_play | E_complete | E_error | E_load | E_seek

text \<open>
  \<open>updateVideoStats\<close> followed by \<open>saveVideoStats\<close>; \<open>dur\<close> is \<open>metadata.duration || 0\<close>
  and \<open>now\<close> the time of \<open>new Date()\<close>.
\<close>

definition updateVideoStats :: "int \<Rightarrow> analytics \<Rightarrow> jsstring \<Rightarrow> event \<Rightarrow> real \<Rightarrow> analytics" where
  "updateVideoStats now st vid ev dur =
     (let s = getVideoStats st vid;
          s' = (case ev of
                  E_play \<Rightarrow> s\<lparr>playCount := videoStats.playCount s + 1, lastPlayed := Some now\<rparr>
                | E_complete \<Rightarrow> s\<lparr>completionCount := completionCount s + 1,
                                   totalWatchTime := totalWatchTime s + dur\<rparr>
                | E_error \<Rightarrow> s\<lparr>errorCount := errorCount s + 1\<rparr>
                | E_load \<Rightarrow> s\<lparr>loadCount := loadCount s + 1\<rparr>
                | E_seek \<Rightarrow> s\<lparr>seekCount := seekCount s + 1\<rparr>)
      in st(vid \<mapsto> s'))"

text \<open>
  \<open>trackVideoEvent\<close>: the record it logs and returns is not kept; its effect on the
  statistics is that of \<open>updateVideoStats\<close>.
\<close>

definition trackVideoEvent :: "int \<Rightarrow> analytics \<Rightarrow> event \<Rightarrow> video \<Rightarrow> real \<Rightarrow> analytics" where
  "trackVideoEvent now st ev v dur = updateVideoStats now st (recordId v) ev dur"

text \<open>\<open>VideoAnalytics.calculatePopularityScore\<close>; a day has 86400000 milliseconds.\<close>

definition analyticsPopularityScore :: "int \<Rightarrow> analytics \<Rightarrow> video \<Rightarrow> real" where
  "analyticsPopularityScore now st v =
     (let s = getVideoStats st (recordId v);
          playScore = real (videoStats.playCount s) * 10;
          completionScore = real (completionCount s) * 20;
          recencyBonus = (case lastPlayed s of
                            Some t \<Rightarrow> max 0 (100 - real_of_int (now - t) / (1000 * 60 * 60 * 24))
                          | None \<Rightarrow> 0)
      in playScore + completionScore + recencyBonus)"

text \<open>\<open>EnhancedVideoManager.calculatePopularityScore\<close>.\<close>

definition calculatePopularityScore :: "int \<Rightarrow> manager \<Rightarrow> video \<Rightarrow> real" where
  "calculatePopularityScore now m v =
     (let playedData = getRecentlyPlayedData (recentlyPlayed m) (recordId v);
          playCount = (case playedData of Some d \<Rightarrow> played.playCount d | None \<Rightarrow> 0);
          viewCount = video.viewCount v;
          analyticsScore = analyticsPopularityScore now (stats m) v
      in real viewCount + (real playCount * 10) + (analyticsScore * 0.5))"

text \<open>
  The test of \<open>createVideoItemHTML\<close> that decides whether the item shows the
  \<open>popularity-badge\<close>.
\<close>

definition popularityBadge :: "int \<Rightarrow> manager \<Rightarrow> video \<Rightarrow> bool" where
  "popularityBadge now m v = (calculatePopularityScore now m v > 10)"

section \<open>Sorting\<close>

text \<open>
  \<open>Array.prototype.sort\<close> with a comparator, as a stable insertion sort: an element goes
  in front of the first element of the sorted rest that it does not compare greater than.
  A comparator result \<open>NaN\<close> counts as \<open>0\<close>, as the language prescribes. For a consistent
  comparator every stable sort returns this list.
\<close>

definition notGreater :: "jsnumber \<Rightarrow> bool" where
  "notGreater r = (case r of None \<Rightarrow> True | Some x \<Rightarrow> x \<le> 0)"

fun insort_cmp :: "('a \<Rightarrow> 'a \<Rightarrow> jsnumber) \<Rightarrow> 'a \<Rightarrow> 'a list \<Rightarrow> 'a list" where
  "insort_cmp cmp x [] = [x]"
| "insort_cmp cmp x (y # ys) =
     (if notGreater (cmp x y) then x # y # ys else y # insort_cmp cmp x ys)"

definition sort_cmp :: "('a \<Rightarrow> 'a \<Rightarrow> jsnumber) \<Rightarrow> 'a list \<Rightarrow> 'a list" where
  "sort_cmp cmp xs = foldr (insort_cmp cmp) xs []"

text \<open>The difference of two numbers either of which may be \<open>NaN\<close>.\<close>

definition numDiff :: "int option \<Rightarrow> int option \<Rightarrow> jsnumber" where
  "numDiff a b = (case (a, b) of (Some x, Some y) \<Rightarrow> Some (real_of_int (x - y)) | _ \<Rightarrow> None)"

text \<open>\<open>String.prototype.split\<close> at a one-unit separator.\<close>

fun split_on :: "jschar \<Rightarrow> jsstring \<Rightarrow> jsstring list" where
  "split_on sep [] = [[]]"
| "split_on sep (c # s) =
     (if c = sep then [] # split_on sep s
      else (case split_on sep s of p # ps \<Rightarrow> (c # p) # ps | [] \<Rightarrow> [[c]]))"

definition parseDuration :: "runtime \<Rightarrow> jsstring \<Rightarrow> int option" where
  "parseDuration rt d =
     (if d = [] \<or> d = js ''--:--'' then Some 0
      else (case split_on 58 d of
              [h, m, s] \<Rightarrow>
                (case (parseInt rt h, parseInt rt m, parseInt rt s) of
                   (Some a, Some b, Some c) \<Rightarrow> Some (a * 3600 + b * 60 + c)
                 | _ \<Rightarrow> None)
            | [m, s] \<Rightarrow>
                (case (parseInt rt m, parseInt rt s) of
                   (Some a, Some b) \<Rightarrow> Some (a * 60 + b)
                 | _ \<Rightarrow> None)
            | _ \<Rightarrow> Some 0))"

text \<open>\<open>VideoAnalytics.getPopularVideos\<close>.\<close>

definition getPopularVideos :: "int \<Rightarrow> analytics \<Rightarrow> video list \<Rightarrow> nat \<Rightarrow> video list" where
  "getPopularVideos now st videos limit =
     map fst (take limit
       (sort_cmp (\<lambda>a b. Some (snd b - snd a))
          (map (\<lambda>v. (v, analyticsPopularityScore now st v)) videos)))"

text \<open>The comparator of the sort option \<open>recently_played\<close>.\<close>

definition recentlyPlayedCmp :: "played list \<Rightarrow> video \<Rightarrow> video \<Rightarrow> jsnumber" where
  "recentlyPlayedCmp rp a b =
     (case (find (\<lambda>v. played_id v = recordId a) rp, find (\<lambda>v. played_id v = recordId b) rp) of
        (None, None) \<Rightarrow> Some 0
      | (None, Some bPlayed) \<Rightarrow> Some 1
      | (Some aPlayed, None) \<Rightarrow> Some (- 1)
      | (Some aPlayed, Some bPlayed) \<Rightarrow> Some (real_of_int (playedAt bPlayed - playedAt aPlayed)))"

definition sortVideos :: "runtime \<Rightarrow> int \<Rightarrow> manager \<Rightarrow> video list \<Rightarrow> jsstring \<Rightarrow> video list" where
  "sortVideos rt now m videos sortOption =
     (if sortOption = js ''title_asc'' then
        sort_cmp (\<lambda>a b. Some (real_of_int (localeCompare rt (classified.title a) (classified.title b)))) videos
      else if sortOption = js ''title_desc'' then
        sort_cmp (\<lambda>a b. Some (real_of_int (localeCompare rt (classified.title b) (classified.title a)))) videos
      else if sortOption = js ''date_desc'' then
        sort_cmp (\<lambda>a b. numDiff (dateValue rt (video.createdAt b)) (dateValue rt (video.createdAt a))) videos
      else if sortOption = js ''date_asc'' then
        sort_cmp (\<lambda>a b. numDiff (dateValue rt (video.createdAt a)) (dateValue rt (video.createdAt b))) videos
      else if sortOption = js ''duration_asc'' then
        sort_cmp (\<lambda>a b. numDiff (parseDuration rt (video.duration a)) (parseDuration rt (video.duration b))) videos
      else if sortOption = js ''duration_desc'' then
        sort_cmp (\<lambda>a b. numDiff (parseDuration rt (video.duration b)) (parseDuration rt (video.duration a))) videos
      else if sortOption = js ''popularity'' then
        sort_cmp (\<lambda>a b. let aScore = calculatePopularityScore now m a;
                             bScore = calculatePopularityScore now m b
                         in Some (bScore - aScore)) videos
      else if sortOption = js ''recently_played'' then
        sort_cmp (recentlyPlayedCmp (recentlyPlayed m)) videos
      else if sortOption = js ''most_popular'' then
        getPopularVideos now (stats m) videos (length videos)
      else videos)"

section \<open>Catalog queries\<close>

text \<open>\<open>applyFiltersAndSearch\<close>; the rendering that \<open>updateUI\<close> starts is not part of the model.\<close>

definition applyFiltersAndSearch :: "runtime \<Rightarrow> int \<Rightarrow> manager \<Rightarrow> manager" where
  "applyFiltersAndSearch rt now m =
     (let results = allVideos m;
          results = (if currentFilters_platform m \<noteq> [] \<and> currentFilters_platform m \<noteq> js ''all''
                     then filter (\<lambda>v. classified.type v = currentFilters_platform m) results
                     else results);
          results = (if currentSearchTerm m \<noteq> [] \<and> length (currentSearchTerm m) \<ge> MIN_SEARCH_LENGTH
                     then searchVideos results (currentSearchTerm m)
                     else results)
      in m\<lparr>filteredVideos := sortVideos rt now m results (currentSortOption m)\<rparr>)"

text \<open>\<open>loadVideoById\<close> returns the video found, or \<open>null\<close>.\<close>

definition loadVideoById :: "int \<Rightarrow> manager \<Rightarrow> jsstring \<Rightarrow> video option \<times> manager" where
  "loadVideoById now m vid =
     (case findIndex (\<lambda>v. recordId v = vid) (filteredVideos m) of
        Some videoIndex \<Rightarrow>
          (Some (filteredVideos m ! videoIndex),
           m\<lparr>currentVideoId := Some vid,
             recentlyPlayed := addToRecentlyPlayed now (recentlyPlayed m) vid\<rparr>)
      | None \<Rightarrow> (None, m))"

section \<open>Record store client\<close>

text \<open>\<open>a || b\<close> for a string that may be absent: the empty string is falsy.\<close>

definition orElse :: "jsstring option \<Rightarrow> jsstring \<Rightarrow> jsstring" where
  "orElse a b = (case a of Some s \<Rightarrow> (if s = [] then b else s) | None \<Rightarrow> b)"

text \<open>
  The object \<open>getAllVideos\<close> builds from one store record; \<open>nowIso\<close> is
  \<open>new Date().toISOString()\<close>. It sets no \<open>originalUrl\<close>.
\<close>

definition toVideo :: "jsstring \<Rightarrow> storeRecord \<Rightarrow> video" where
  "toVideo nowIso r =
     (let f = snd r in
      \<lparr>videoId = orElse (storeFields.videoId f) (fst r),
       type = orElse (storeFields.type f) (js ''other''),
       embedUrls = (case storeFields.embedUrls f of
                      Some us \<Rightarrow> us
                    | None \<Rightarrow> [orElse (storeFields.url f) []]),
       thumbnail = (case storeFields.thumbnail f of
                      Some t \<Rightarrow> (if t = [] then None else Some t)
                    | None \<Rightarrow> None),
       title = orElse (storeFields.title f) [],
       description = orElse (storeFields.description f) [],
       originalUrl = None,
       recordId = fst r,
       duration = orElse (storeFields.duration f) (js ''--:--''),
       url = orElse (storeFields.url f) [],
       createdAt = orElse (storeFields.createdAt f) nowIso,
       status = orElse (storeFields.status f) (js ''active''),
       viewCount = (case storeFields.viewCount f of Some n \<Rightarrow> n | None \<Rightarrow> 0),
       tags = (case storeFields.tags f of Some ts \<Rightarrow> ts | None \<Rightarrow> []),
       category = orElse (storeFields.category f) (js ''general''),
       author = orElse (storeFields.author f) []\<rparr>)"

datatype jserror = Error string | TypeError | InvalidCharacterError | URIError

text \<open>
  \<open>AirtableService\<close>: its cache under the key \<open>all-videos\<close>. The answer of
  \<open>handleRequest\<close> is an argument: the error it throws, or the parsed body, whose
  \<open>records\<close> is \<open>None\<close> when it is missing or not an array.
\<close>

record airtable =
  cache :: "video list option"

definition getAllVideos ::
  "airtable \<Rightarrow> jsstring \<Rightarrow> jserror + storeRecord list option \<Rightarrow> (jserror + video list) \<times> airtable" where
  "getAllVideos svc nowIso response =
     (case cache svc of
        Some videos \<Rightarrow> (Inr videos, svc)
      | None \<Rightarrow>
          (case response of
             Inl e \<Rightarrow> (Inl (Error ''Failed to load videos from cloud storage''), svc)
           | Inr None \<Rightarrow> (Inl (Error ''Failed to load videos from cloud storage''), svc)
           | Inr (Some records) \<Rightarrow>
               (let videos = filter (\<lambda>video. video.status video \<noteq> js ''inactive'')
                               (map (toVideo nowIso) records)
                in (Inr videos, svc\<lparr>cache := Some videos\<rparr>))))"

text \<open>
  \<open>loadVideos\<close> of the manager. The result is what the caller gets; the manager keeps
  its videos when the store fails.
\<close>

definition loadVideos ::
  "runtime \<Rightarrow> int \<Rightarrow> jsstring \<Rightarrow> manager \<Rightarrow> airtable \<Rightarrow> jserror + storeRecord list option
     \<Rightarrow> video list \<times> manager \<times> airtable" where
  "loadVideos rt now nowIso m svc response =
     (if isLoading m then (allVideos m, m, svc)
      else (case getAllVideos svc nowIso response of
              (Inr freshVideos, svc') \<Rightarrow>
                (let m' = applyFiltersAndSearch rt now (m\<lparr>allVideos := freshVideos\<rparr>)
                 in (allVideos m', m'\<lparr>isLoading := False\<rparr>, svc'))
            | (Inl e, svc') \<Rightarrow> ([], m\<lparr>isLoading := False\<rparr>, svc')))"

section \<open>The search of the specification\<close>

text \<open>
  The loose match as the specification words it: every code unit of the lowercased search
  term appears in order, not necessarily contiguously, in the lowercased field value.
\<close>

definition looseMatch :: "jsstring \<Rightarrow> jsstring \<Rightarrow> bool" where
  "looseMatch fieldValue searchTerm = subseq (toLowerCase searchTerm) (toLowerCase fieldValue)"

text \<open>
  An entry is a hit when one of title, description, platform type, tags, category and
  author loosely matches; the value of the field \<open>tags\<close> is its string, the tags
  joined by commas.
\<close>

definition searchHit :: "video \<Rightarrow> jsstring \<Rightarrow> bool" where
  "searchHit v searchTerm =
     (looseMatch (classified.title v) searchTerm \<or>
      looseMatch (classified.description v) searchTerm \<or>
      looseMatch (classified.type v) searchTerm \<or>
      looseMatch (joinWith (js '','') (video.tags v)) searchTerm \<or>
      looseMatch (video.category v) searchTerm \<or>
      looseMatch (video.author v) searchTerm)"

section \<open>Sample data\<close>

text \<open>A catalog entry with two embed candidates, for the evaluations below.\<close>

definition demoVideo :: "string \<Rightarrow> string \<Rightarrow> string \<Rightarrow> string list \<Rightarrow> string \<Rightarrow> video" where
  "demoVideo rid ty ttl tgs st =
     \<lparr>videoId = js rid, type = js ty,
      embedUrls = [js ''https://e.example/1'', js ''https://e.example/2''],
      thumbnail = None, title = js ttl, description = [], originalUrl = None,
      recordId = js rid, duration = js ''--:--'', url = js ''https://e.example/1'',
      createdAt = js ''2024-01-01'', status = js st, viewCount = 0, tags = map js tgs,
      category = js ''general'', author = []\<rparr>"

section \<open>Initial and reachable catalog states\<close>

text \<open>The fields as the constructors of the manager and of the store client set them.\<close>

definition newManager :: manager where
  "newManager =
     \<lparr>allVideos = [], filteredVideos = [], currentVideoId = None, currentSearchTerm = [],
      currentSortOption = js ''default'', currentFilters_platform = js ''all'',
      recentlyPlayed = [], stats = Map.empty, isLoading = False\<rparr>"

definition newAirtable :: airtable where
  "newAirtable = \<lparr>cache = None\<rparr>"

text \<open>
  The states of the catalog and of the store client's cache that loading from the store,
  the handlers of the search box, of the sort and of the platform filter, playing a video,
  tracking an event, the expiry of the cache and adding a video lead to. Every answer of
  the store to a read and every value a handler may set are allowed. \<open>addCustomVideo\<close>
  posts a record with the status \<open>active\<close>, clears the cache and appends the record the
  store returns; the store is taken not to return it as \<open>inactive\<close>.
\<close>

inductive reachable :: "manager \<Rightarrow> airtable \<Rightarrow> bool" where
  init: "reachable newManager newAirtable"
| load: "reachable m svc \<Longrightarrow> loadVideos rt now nowIso m svc response = (vs, m', svc')
         \<Longrightarrow> reachable m' svc'"
| query: "reachable m svc \<Longrightarrow>
          reachable (applyFiltersAndSearch rt now
            (m\<lparr>currentFilters_platform := p, currentSearchTerm := t, currentSortOption := s\<rparr>)) svc"
| play: "reachable m svc \<Longrightarrow> loadVideoById now m vid = (r, m') \<Longrightarrow> reachable m' svc"
| track: "reachable m svc \<Longrightarrow> reachable (m\<lparr>stats := trackVideoEvent now (stats m) ev v dur\<rparr>) svc"
| expire: "reachable m svc \<Longrightarrow> reachable m (svc\<lparr>cache := None\<rparr>)"
| add: "reachable m svc \<Longrightarrow> video.status created \<noteq> js ''inactive''
        \<Longrightarrow> reachable (applyFiltersAndSearch rt now (m\<lparr>allVideos := allVideos m @ [created]\<rparr>))
              (svc\<lparr>cache := None\<rparr>)"

section \<open>The popularity score of the specification\<close>

text \<open>
  The play count stored for an entry in the recently-played ledger, 0 when the entry is
  absent, and the score the specification gives: \<open>viewCount + 10 * recentPlayCount\<close>.
\<close>

definition recentPlayCount :: "played list \<Rightarrow> jsstring \<Rightarrow> nat" where
  "recentPlayCount ledger vid =
     (case find (\<lambda>d. played_id d = vid) ledger of Some d \<Rightarrow> played.playCount d | None \<Rightarrow> 0)"

definition specPopularity :: "manager \<Rightarrow> video \<Rightarrow> real" where
  "specPopularity m v =
     real (video.viewCount v) + 10 * real (recentPlayCount (recentlyPlayed m) (recordId v))"

section \<open>Catalog views without inactive entries\<close>

definition clean :: "video list \<Rightarrow> bool" where
  "clean vs = (\<forall>v \<in> set vs. video.status v \<noteq> js ''inactive'')"

definition cleanState :: "manager \<Rightarrow> airtable \<Rightarrow> bool" where
  "cleanState m svc =
     (clean (allVideos m) \<and> clean (filteredVideos m) \<and>
      (case cache svc of Some c \<Rightarrow> clean c | None \<Rightarrow> True))"

text \<open>Store fields with a status only, a runtime, and an answer of the store with an
  inactive and an active record, for the evaluations below.\<close>

definition demoFields :: "jsstring option \<Rightarrow> storeFields" where
  "demoFields st =
     \<lparr>storeFields.videoId = None, storeFields.title = None, storeFields.description = None,
      storeFields.type = None, storeFields.duration = None, storeFields.url = None,
      storeFields.embedUrls = None, storeFields.thumbnail = None,
      storeFields.createdAt = None, storeFields.status = st, storeFields.viewCount = None,
      storeFields.tags = None, storeFields.category = None, storeFields.author = None\<rparr>"

definition demoRuntime :: runtime where
  "demoRuntime = \<lparr>localeCompare = (\<lambda>a b. 0), dateValue = (\<lambda>s. None), parseInt = (\<lambda>s. None)\<rparr>"

definition demoResponse :: "jserror + storeRecord list option" where
  "demoResponse =
     Inr (Some [(js ''rec1'', demoFields (Some (js ''inactive''))), (js ''rec2'', demoFields None)])"

definition demoLoaded :: "video list \<times> manager \<times> airtable" where
  "demoLoaded = loadVideos demoRuntime 0 (js ''2024-01-01'') newManager newAirtable demoResponse"

section \<open>Duplicate prevention\<close>

text \<open>
  \<open>DuplicatePreventionService\<close>: the map \<open>videoHashes\<close>, keyed by the hash string, and
  the threshold its constructor sets.
\<close>

record dupService =
  videoHashes :: "jsstring \<rightharpoonup> classified"
  similarityThreshold :: real

definition newDuplicatePreventionService :: dupService where
  "newDuplicatePreventionService = \<lparr>videoHashes = Map.empty, similarityThreshold = 0.85\<rparr>"

text \<open>\<open>Number.prototype.toString(36)\<close> of an integer: digits \<open>0\<close>..\<open>9\<close>, \<open>a\<close>..\<open>z\<close>.\<close>

definition digit36 :: "nat \<Rightarrow> jschar" where
  "digit36 d = (if d < 10 then 48 + d else 87 + d)"

function toString36_nat :: "nat \<Rightarrow> jsstring" where
  "toString36_nat n =
     (if n < 36 then [digit36 n] else toString36_nat (n div 36) @ [digit36 (n mod 36)])"
  by pat_completeness auto
termination
  by (relation "measure (\<lambda>n. n)") auto

declare toString36_nat.simps [simp del]

definition toString36 :: "int \<Rightarrow> jsstring" where
  "toString36 i = (if i < 0 then 45 # toString36_nat (nat (- i)) else toString36_nat (nat i))"

text \<open>
  \<open>generateVideoHash\<close>. The hash is a 32-bit integer: \<open>hash << 5\<close> and
  \<open>hash & hash\<close> wrap the value to 32 bits, and the sum in between is exact, so each
  round is the same arithmetic on a 32-bit word, read as signed at the end.
\<close>

definition hashContent :: "'a classified_scheme \<Rightarrow> jsstring" where
  "hashContent videoData =
     toLowerCase (classified.videoId videoData @ js ''-'' @ classified.type videoData @ js ''-''
                  @ classified.title videoData)"

definition hashRound :: "32 word \<Rightarrow> jschar \<Rightarrow> 32 word" where
  "hashRound hash char = (let hash = (push_bit 5 hash - hash) + of_nat char in hash AND hash)"

definition generateVideoHash :: "'a classified_scheme \<Rightarrow> jsstring" where
  "generateVideoHash videoData = toString36 (sint (foldl hashRound 0 (hashContent videoData)))"

text \<open>
  \<open>editDistance\<close>: the inner loop body at \<open>(i, j)\<close> on the array \<open>costs\<close> and the
  variable \<open>lastValue\<close>, the body of the outer loop at \<open>i\<close>, and the function. The
  array is read only where the row \<open>i = 0\<close> has written it.
\<close>

definition editDistance_inner ::
  "jsstring \<Rightarrow> jsstring \<Rightarrow> nat \<Rightarrow> nat list \<times> nat \<Rightarrow> nat \<Rightarrow> nat list \<times> nat" where
  "editDistance_inner s1 s2 i st j =
     (let costs = fst st; lastValue = snd st in
      if i = 0 then (costs[j := j], lastValue)
      else if j > 0 then
        (let newValue = costs ! (j - 1);
             newValue = (if s1 ! (i - 1) \<noteq> s2 ! (j - 1)
                         then min (min newValue lastValue) (costs ! j) + 1
                         else newValue)
         in (costs[j - 1 := lastValue], newValue))
      else (costs, lastValue))"

definition editDistance_outer :: "jsstring \<Rightarrow> jsstring \<Rightarrow> nat list \<Rightarrow> nat \<Rightarrow> nat list" where
  "editDistance_outer s1 s2 costs i =
     (let st = foldl (editDistance_inner s1 s2 i) (costs, i) [0..<Suc (length s2)]
      in if i > 0 then (fst st)[length s2 := snd st] else fst st)"

definition editDistance :: "jsstring \<Rightarrow> jsstring \<Rightarrow> nat" where
  "editDistance str1 str2 =
     (let s1 = toLowerCase str1; s2 = toLowerCase str2;
          costs = foldl (editDistance_outer s1 s2) (replicate (length s2 + 1) 0)
                    [0..<Suc (length s1)]
      in costs ! length s2)"

text \<open>\<open>calculateSimilarity\<close>; the empty string is falsy.\<close>

definition calculateSimilarity :: "jsstring \<Rightarrow> jsstring \<Rightarrow> real" where
  "calculateSimilarity str1 str2 =
     (if str1 = [] \<or> str2 = [] then 0
      else let longer = (if length str1 > length str2 then str1 else str2);
               shorter = (if length str1 > length str2 then str2 else str1)
           in if length longer = 0 then 1
              else (real (length longer) - real (editDistance longer shorter))
                   / real (length longer))"

text \<open>
  \<open>checkSimilarity\<close>: the URL similarity is computed when both objects have a truthy
  \<open>originalUrl\<close>.
\<close>

definition checkSimilarity ::
  "'a classified_scheme \<Rightarrow> 'b classified_scheme \<Rightarrow> real \<Rightarrow> bool" where
  "checkSimilarity video1 video2 threshold =
     (let titleSimilarity = calculateSimilarity (classified.title video1) (classified.title video2);
          urlSimilarity =
            (case (originalUrl video1, originalUrl video2) of
               (Some u1, Some u2) \<Rightarrow>
                 (if u1 \<noteq> [] \<and> u2 \<noteq> [] then calculateSimilarity u1 u2 else 0)
             | _ \<Rightarrow> 0)
      in max titleSimilarity urlSimilarity > threshold)"

text \<open>\<open>isDuplicate\<close> returns its verdict and the service with the map it leaves.\<close>

definition isDuplicate ::
  "dupService \<Rightarrow> classified \<Rightarrow> 'a classified_scheme list \<Rightarrow> bool \<times> dupService" where
  "isDuplicate this videoData existingVideos =
     (let hash = generateVideoHash videoData in
      if videoHashes this hash \<noteq> None then (True, this)
      else if list_ex (\<lambda>existingVideo.
                 checkSimilarity videoData existingVideo (similarityThreshold this)) existingVideos
      then (True, this)
      else (False, this\<lparr>videoHashes := (videoHashes this)(hash \<mapsto> videoData)\<rparr>))"

text \<open>A candidate as \<open>parseUnknown\<close> shapes it, with the given title and original URL.\<close>

definition demoCandidate :: "string \<Rightarrow> string \<Rightarrow> string \<Rightarrow> classified" where
  "demoCandidate vid ttl ourl =
     \<lparr>videoId = js vid, type = js ''other'', embedUrls = [js ourl], thumbnail = Some [],
      title = js ttl, description = [], originalUrl = Some (js ourl)\<rparr>"

text \<open>
  The edit distance the loops compute, by the recurrence of the loop body: the distance
  between the first \<open>i\<close> code units of \<open>s1\<close> and the first \<open>j\<close> of \<open>s2\<close>.
\<close>

fun lev :: "jsstring \<Rightarrow> jsstring \<Rightarrow> nat \<Rightarrow> nat \<Rightarrow> nat" where
  "lev s1 s2 0 j = j"
| "lev s1 s2 (Suc i) 0 = Suc i"
| "lev s1 s2 (Suc i) (Suc j) =
     (if s1 ! i \<noteq> s2 ! j
      then min (min (lev s1 s2 i j) (lev s1 s2 (Suc i) j)) (lev s1 s2 i (Suc j)) + 1
      else lev s1 s2 i j)"

text \<open>The array \<open>costs\<close> after the row \<open>i\<close>.\<close>

definition levRow :: "jsstring \<Rightarrow> jsstring \<Rightarrow> nat \<Rightarrow> nat list" where
  "levRow s1 s2 i = map (lev s1 s2 i) [0..<Suc (length s2)]"

text \<open>
  The state of the inner loop of the row \<open>Suc i\<close> before the step \<open>k\<close>: the array holds
  the new row below \<open>k - 1\<close> and the old row from there on, \<open>lastValue\<close> the new entry
  at \<open>k - 1\<close>.
\<close>

definition innerInv :: "jsstring \<Rightarrow> jsstring \<Rightarrow> nat \<Rightarrow> nat \<Rightarrow> nat list \<times> nat \<Rightarrow> bool" where
  "innerInv s1 s2 i k st =
     (length (fst st) = Suc (length s2) \<and>
      (\<forall>t < k - 1. fst st ! t = lev s1 s2 (Suc i) t) \<and>
      (\<forall>t. k - 1 \<le> t \<and> t \<le> length s2 \<longrightarrow> fst st ! t = lev s1 s2 i t) \<and>
      snd st = lev s1 s2 (Suc i) (k - 1))"

section \<open>Availability probe\<close>

text \<open>
  The network is a parameter: the status of the response to a request, or \<open>None\<close> when
  \<open>fetch\<close> throws (the network fails, or the timeout signal aborts the request).
\<close>

datatype httpMethod = HEAD | GET

type_synonym network = "httpMethod \<Rightarrow> jsstring \<Rightarrow> nat option"

text \<open>
  The properties \<open>checkVideoAvailability\<close> reads of its argument. A catalog entry has
  them all; the object \<open>parseURL\<close> returns has neither \<open>id\<close> nor \<open>url\<close>.
\<close>

record probed =
  p_id :: "jsstring option"
  p_type :: jsstring
  p_url :: "jsstring option"
  p_videoId :: jsstring

definition probedOfVideo :: "video \<Rightarrow> probed" where
  "probedOfVideo v =
     \<lparr>p_id = Some (recordId v), p_type = classified.type v, p_url = Some (video.url v),
      p_videoId = classified.videoId v\<rparr>"

text \<open>A template literal prints an absent value as \<open>undefined\<close>.\<close>

definition templateString :: "jsstring option \<Rightarrow> jsstring" where
  "templateString s = (case s of Some x \<Rightarrow> x | None \<Rightarrow> js ''undefined'')"

text \<open>Each check catches what \<open>fetch\<close> throws and returns \<open>false\<close> then.\<close>

definition checkDirectUrl :: "network \<Rightarrow> jsstring \<Rightarrow> bool" where
  "checkDirectUrl net u =
     (case net HEAD u of
        Some response \<Rightarrow> True
      | None \<Rightarrow> (case net GET u of Some response \<Rightarrow> True | None \<Rightarrow> False))"

definition checkYouTubeAvailability :: "network \<Rightarrow> jsstring \<Rightarrow> bool" where
  "checkYouTubeAvailability net vid =
     (case net GET (js ''https://img.youtube.com/vi/'' @ vid @ js ''/hqdefault.jpg'') of
        Some response \<Rightarrow> response = 200
      | None \<Rightarrow> False)"

definition checkDriveAvailability :: "network \<Rightarrow> jsstring \<Rightarrow> bool" where
  "checkDriveAvailability net fileId =
     (case net GET (js ''https://drive.google.com/thumbnail?id='' @ fileId @ js ''&sz=w100'') of
        Some response \<Rightarrow> response = 200
      | None \<Rightarrow> False)"

definition checkVimeoAvailability :: "network \<Rightarrow> jsstring \<Rightarrow> bool" where
  "checkVimeoAvailability net vid =
     (case net GET (js ''https://vumbnail.com/'' @ vid @ js ''.jpg'') of
        Some response \<Rightarrow> response = 200
      | None \<Rightarrow> False)"

definition checkWithFallback :: "network \<Rightarrow> probed \<Rightarrow> bool" where
  "checkWithFallback net v =
     (if p_type v = js ''youtube'' then checkYouTubeAvailability net (p_videoId v)
      else if p_type v = js ''drive'' then checkDriveAvailability net (p_videoId v)
      else if p_type v = js ''vimeo'' then checkVimeoAvailability net (p_videoId v)
      else True)"

text \<open>
  The body of the \<open>try\<close> of \<open>checkVideoAvailability\<close>: \<open>video.url.startsWith\<close> throws a
  \<open>TypeError\<close> when the object has no \<open>url\<close>; \<open>fetch(undefined)\<close> requests the string
  \<open>undefined\<close>.
\<close>

definition availabilityTry :: "network \<Rightarrow> probed \<Rightarrow> jserror + bool" where
  "availabilityTry net v =
     (if p_type v = js ''direct'' then Inr (checkDirectUrl net (templateString (p_url v)))
      else (case p_url v of
              None \<Rightarrow> Inl TypeError
            | Some u \<Rightarrow>
                (if prefix (js ''http'') u then Inr (checkDirectUrl net u)
                 else Inr (checkWithFallback net v))))"

text \<open>
  \<open>checkVideoAvailability\<close> on the cache of the checker: the cached answer, or the
  answer of the \<open>try\<close>, which is stored, or \<open>false\<close> from the \<open>catch\<close>.
\<close>

definition checkVideoAvailability ::
  "(jsstring \<rightharpoonup> bool) \<Rightarrow> network \<Rightarrow> probed \<Rightarrow> bool \<times> (jsstring \<rightharpoonup> bool)" where
  "checkVideoAvailability cch net v =
     (let cacheKey = js ''availability-'' @ templateString (p_id v) in
      case cch cacheKey of
        Some cached \<Rightarrow> (cached, cch)
      | None \<Rightarrow>
          (case availabilityTry net v of
             Inr isAvailable \<Rightarrow> (isAvailable, cch(cacheKey \<mapsto> isAvailable))
           | Inl e \<Rightarrow> (False, cch)))"

section \<open>Playback fallback engine\<close>

text \<open>
  Notifications are kept by what they say, not by their text: the type of the platform
  stands for \<open>Loaded <badge> video\<close>, two numbers for
  \<open>Trying alternative embed... (i/n)\<close>.
\<close>

datatype message =
    M_loaded jsstring
  | M_trying nat nat
  | M_couldNotLoad
  | M_mayNotBeAvailable
  | M_loadedDirect

datatype notifyType = N_success | N_info | N_warning | N_error

text \<open>
  What the closures \<open>onLoad\<close> and \<open>onError\<close> of one call of \<open>loadVideo\<close> hold: the
  video, its embed URLs and the timer \<open>loadingTimeout\<close>.
\<close>

record handlers =
  h_video :: video
  h_embedUrls :: "jsstring list"
  h_timer :: nat

text \<open>A pending timeout: its identifier, the time it is due and the video of its callback.\<close>

record timer =
  t_id :: nat
  t_due :: int
  t_video :: video

text \<open>
  \<open>EnhancedVideoPlayer\<close> with the parts of the page it drives. \<open>fallbackShown\<close> is
  \<open>fallbackMessage.style.display\<close> (\<open>flex\<close> or \<open>none\<close>), \<open>playerShown\<close> that of the
  frame (\<open>block\<close> or \<open>none\<close>), \<open>installed\<close> the handlers \<open>onload\<close> and \<open>onerror\<close>
  of the frame. \<open>srcLog\<close> lists every value assigned to \<open>videoPlayer.src\<close> and
  \<open>notifications\<close> every notification shown, oldest first; the code keeps neither list.
\<close>

record player =
  videoManager :: manager
  availabilityCache :: "jsstring \<rightharpoonup> bool"
  currentEmbedIndex :: nat
  currentVideoData :: "video option"
  playbackStartTime :: "int option"
  fallbackShown :: bool
  playerShown :: bool
  directSource :: "jsstring option"
  installed :: "handlers option"
  timers :: "timer list"
  nextTimer :: nat
  srcLog :: "jsstring list"
  notifications :: "(message \<times> notifyType) list"

definition newPlayer :: "manager \<Rightarrow> player" where
  "newPlayer m =
     \<lparr>videoManager = m, availabilityCache = Map.empty, currentEmbedIndex = 0,
      currentVideoData = None, playbackStartTime = None, fallbackShown = False,
      playerShown = False, directSource = None, installed = None, timers = [],
      nextTimer = 0, srcLog = [], notifications = []\<rparr>"

definition showNotification :: "message \<Rightarrow> notifyType \<Rightarrow> player \<Rightarrow> player" where
  "showNotification msg ty p = p\<lparr>notifications := notifications p @ [(msg, ty)]\<rparr>"

definition track :: "int \<Rightarrow> event \<Rightarrow> video \<Rightarrow> player \<Rightarrow> player" where
  "track now ev v p =
     p\<lparr>videoManager := (videoManager p)\<lparr>stats := trackVideoEvent now (stats (videoManager p)) ev v 0\<rparr>\<rparr>"

text \<open>An assignment to \<open>videoPlayer.src\<close>; an index beyond the array assigns \<open>undefined\<close>.\<close>

definition setSrc :: "jsstring list \<Rightarrow> nat \<Rightarrow> player \<Rightarrow> player" where
  "setSrc us i p =
     p\<lparr>srcLog := srcLog p @ [if i < length us then us ! i else js ''undefined'']\<rparr>"

definition clearTimeout :: "nat \<Rightarrow> player \<Rightarrow> player" where
  "clearTimeout tid p = p\<lparr>timers := filter (\<lambda>t. t_id t \<noteq> tid) (timers p)\<rparr>"

definition showFallbackMessage :: "player \<Rightarrow> player" where
  "showFallbackMessage p = p\<lparr>fallbackShown := True\<rparr>"

definition handleEmbedError :: "video \<Rightarrow> jsstring list \<Rightarrow> player \<Rightarrow> player" where
  "handleEmbedError v us p =
     (let p = p\<lparr>currentEmbedIndex := currentEmbedIndex p + 1\<rparr> in
      if currentEmbedIndex p < length us then
        showNotification (M_trying (currentEmbedIndex p + 1) (length us)) N_info
          (setSrc us (currentEmbedIndex p) p)
      else showNotification M_couldNotLoad N_error (showFallbackMessage p))"

text \<open>
  \<open>loadDirectVideo\<close>: the frame is hidden and a \<open>video\<close> element gets the URL as its
  source. The listeners of that element only track events and are not modelled.
\<close>

definition loadDirectVideo :: "video \<Rightarrow> jsstring \<Rightarrow> player \<Rightarrow> player" where
  "loadDirectVideo v u p =
     showNotification M_loadedDirect N_success (p\<lparr>playerShown := False, directSource := Some u\<rparr>)"

text \<open>
  \<open>loadVideo\<close> for a video that is not \<open>null\<close>, at time \<open>now\<close>. The probe is awaited
  inside; the model runs the call to its end in one step, at the time \<open>now\<close>, so that
  the timeout it sets is due at \<open>now + 10000\<close>.
\<close>

definition loadVideo :: "int \<Rightarrow> network \<Rightarrow> video \<Rightarrow> player \<Rightarrow> player" where
  "loadVideo now net v p =
     (let p = track now E_load v p;
          p = p\<lparr>videoManager := snd (loadVideoById now (videoManager p) (recordId v))\<rparr>;
          p = p\<lparr>fallbackShown := False, currentEmbedIndex := 0, currentVideoData := Some v,
                playbackStartTime := Some now\<rparr>;
          us = classified.embedUrls v
      in if classified.type v = js ''direct''
         then loadDirectVideo v (if us = [] then js ''undefined'' else hd us) p
         else
           (let (isAvailable, cch) = checkVideoAvailability (availabilityCache p) net (probedOfVideo v);
                p = p\<lparr>availabilityCache := cch\<rparr>
            in if \<not> isAvailable
               then showNotification M_mayNotBeAvailable N_warning (showFallbackMessage p)
               else
                 (let loadingTimeout = nextTimer p;
                      p = p\<lparr>timers := timers p @ [\<lparr>t_id = loadingTimeout, t_due = now + 10000, t_video = v\<rparr>],
                            nextTimer := loadingTimeout + 1\<rparr>;
                      p = p\<lparr>installed := Some \<lparr>h_video = v, h_embedUrls = us, h_timer = loadingTimeout\<rparr>\<rparr>;
                      p = setSrc us 0 p
                  in p\<lparr>playerShown := True\<rparr>)))"

text \<open>The closures \<open>onLoad\<close> and \<open>onError\<close>, and the callback of a timeout.\<close>

definition onLoad :: "int \<Rightarrow> handlers \<Rightarrow> player \<Rightarrow> player" where
  "onLoad now h p =
     (let p = clearTimeout (h_timer h) p;
          p = p\<lparr>playerShown := True\<rparr>;
          p = showNotification (M_loaded (classified.type (h_video h))) N_success p
      in track now E_play (h_video h) p)"

definition onError :: "int \<Rightarrow> handlers \<Rightarrow> player \<Rightarrow> player" where
  "onError now h p =
     (let p = clearTimeout (h_timer h) p;
          p = track now E_error (h_video h) p
      in handleEmbedError (h_video h) (h_embedUrls h) p)"

text \<open>
  The timeouts. A timeout that is pending and due has run its callback, which shows the
  fallback message, and is pending no more; nothing but the next \<open>loadVideo\<close> hides the
  message again. A timeout is cleared by the handlers of its own call of \<open>loadVideo\<close>
  alone: a later call leaves it pending.
\<close>

definition runTimers :: "int \<Rightarrow> player \<Rightarrow> player" where
  "runTimers now p =
     (if filter (\<lambda>x. t_due x \<le> now) (timers p) = [] then p
      else showFallbackMessage (p\<lparr>timers := filter (\<lambda>x. now < t_due x) (timers p)\<rparr>))"

text \<open>
  What happens to the player at a time: the frame fires \<open>load\<close> or \<open>error\<close>, which runs
  the handler installed, if any, or nothing but the time passes. In each case the
  timeouts due by then have run first.
\<close>

datatype signal = ViewerLoad | ViewerError | TimeoutElapsed

definition fire :: "player \<Rightarrow> int \<times> signal \<Rightarrow> player" where
  "fire p e =
     (let p = runTimers (fst e) p in
      case snd e of
        ViewerLoad \<Rightarrow> (case installed p of Some h \<Rightarrow> onLoad (fst e) h p | None \<Rightarrow> p)
      | ViewerError \<Rightarrow> (case installed p of Some h \<Rightarrow> onError (fst e) h p | None \<Rightarrow> p)
      | TimeoutElapsed \<Rightarrow> p)"

section \<open>The session states of the specification\<close>

text \<open>
  \<open>Failed\<close> is the state in which the fallback message is shown. \<open>Loaded\<close> is the state
  after the viewer's success signal: the frame is shown, the fallback message is not, and
  the last notification reports the load.
\<close>

definition sessionFailed :: "player \<Rightarrow> bool" where
  "sessionFailed p = fallbackShown p"

definition sessionLoaded :: "player \<Rightarrow> bool" where
  "sessionLoaded p =
     (\<not> fallbackShown p \<and> playerShown p \<and> notifications p \<noteq> [] \<and>
      (case fst (last (notifications p)) of M_loaded ty \<Rightarrow> snd (last (notifications p)) = N_success
       | _ \<Rightarrow> False))"

text \<open>The signals of a session: errors at the given times, then one more signal.\<close>

definition errorsAt :: "int list \<Rightarrow> (int \<times> signal) list" where
  "errorsAt ts = map (\<lambda>t. (t, ViewerError)) ts"



text \<open>A network on which every request fails, and one that answers every request with 200.\<close>

definition deadNetwork :: network where
  "deadNetwork = (\<lambda>m u. None)"

definition liveNetwork :: network where
  "liveNetwork = (\<lambda>m u. Some 200)"


text \<open>A catalog entry of the platform \<open>vimeo\<close> with two candidates.\<close>

definition demoEntry :: video where
  "demoEntry = demoVideo ''r1'' ''vimeo'' ''Cat'' [] ''active''"

section \<open>Regular expressions of the URL classifier\<close>

text \<open>
  The patterns of \<open>UniversalVideoParser\<close> are built from literal text, alternatives,
  a greedy \<open>+\<close> over a character class and capturing groups.
\<close>

datatype regex =
    Lit jsstring
  | Plus "jschar \<Rightarrow> bool"
  | Seq regex regex
  | Alt regex regex
  | Group regex

text \<open>
  All ways the pattern matches a prefix of the string, in the order in which a backtracking
  matcher tries them (the left alternative first, the longest repetition first): the rest
  of the string and the captures so far.
\<close>

fun rmatch :: "regex \<Rightarrow> jsstring \<Rightarrow> jsstring list \<Rightarrow> (jsstring \<times> jsstring list) list" where
  "rmatch (Lit l) s caps = (if prefix l s then [(drop (length l) s, caps)] else [])"
| "rmatch (Plus C) s caps = map (\<lambda>k. (drop k s, caps)) (rev [1..<Suc (length (takeWhile C s))])"
| "rmatch (Seq a b) s caps = concat (map (\<lambda>m. rmatch b (fst m) (snd m)) (rmatch a s caps))"
| "rmatch (Alt a b) s caps = rmatch a s caps @ rmatch b s caps"
| "rmatch (Group a) s caps =
     map (\<lambda>m. (fst m, snd m @ [take (length s - length (fst m)) s])) (rmatch a s caps)"

text \<open>
  \<open>String.prototype.match\<close> with a pattern that has no flag: the first match at the
  leftmost position where there is one. The result is the list of the captures, so
  \<open>match[1]\<close> is its element 0; \<open>None\<close> is \<open>null\<close>.
\<close>

fun str_match :: "regex \<Rightarrow> jsstring \<Rightarrow> jsstring list option" where
  "str_match r [] = (case rmatch r [] [] of [] \<Rightarrow> None | m # ms \<Rightarrow> Some (snd m))"
| "str_match r (c # s) =
     (case rmatch r (c # s) [] of [] \<Rightarrow> str_match r s | m # ms \<Rightarrow> Some (snd m))"

definition noneOf :: "string \<Rightarrow> jschar \<Rightarrow> bool" where
  "noneOf cs c = (c \<notin> set (js cs))"

definition digitClass :: "jschar \<Rightarrow> bool" where
  "digitClass c = (48 \<le> c \<and> c \<le> 57)"

definition wordClass :: "jschar \<Rightarrow> bool" where
  "wordClass c = ((48 \<le> c \<and> c \<le> 57) \<or> (65 \<le> c \<and> c \<le> 90) \<or> (97 \<le> c \<and> c \<le> 122) \<or> c = 95)"

text \<open>A literal followed by one capturing group over a class, the shape of most patterns.\<close>

definition litGroup :: "string \<Rightarrow> (jschar \<Rightarrow> bool) \<Rightarrow> regex" where
  "litGroup l C = Seq (Lit (js l)) (Group (Plus C))"

section \<open>Built-ins the classifier calls\<close>

text \<open>
  \<open>btoa\<close> throws on a code unit above 255 and otherwise returns the Base64 text of the
  bytes.
\<close>

definition b64char :: "nat \<Rightarrow> jschar" where
  "b64char n =
     (if n < 26 then 65 + n else if n < 52 then 71 + n else if n < 62 then n - 4
      else if n = 62 then 43 else 47)"

fun b64enc :: "nat list \<Rightarrow> jsstring" where
  "b64enc [] = []"
| "b64enc [a] = [b64char (a div 4), b64char ((a mod 4) * 16), 61, 61]"
| "b64enc [a, b] =
     [b64char (a div 4), b64char ((a mod 4) * 16 + b div 16), b64char ((b mod 16) * 4), 61]"
| "b64enc (a # b # c # bs) =
     [b64char (a div 4), b64char ((a mod 4) * 16 + b div 16),
      b64char ((b mod 16) * 4 + c div 64), b64char (c mod 64)] @ b64enc bs"

definition btoa :: "jsstring \<Rightarrow> jserror + jsstring" where
  "btoa s = (if list_all (\<lambda>c. c \<le> 255) s then Inr (b64enc s) else Inl InvalidCharacterError)"

text \<open>\<open>btoa(url).replace(/=/g, '')\<close>.\<close>

definition btoaId :: "jsstring \<Rightarrow> jserror + jsstring" where
  "btoaId u = (case btoa u of Inl e \<Rightarrow> Inl e | Inr b \<Rightarrow> Inr (filter (\<lambda>c. c \<noteq> 61) b))"

text \<open>
  \<open>encodeURIComponent\<close>: letters, digits and \<open>- _ . ! ~ * ' ( )\<close> stay, every other
  character becomes the percent-encoded bytes of its UTF-8 form; a surrogate without its
  partner throws a \<open>URIError\<close>.
\<close>

definition hexDigit :: "nat \<Rightarrow> jschar" where
  "hexDigit n = (if n < 10 then 48 + n else 55 + n)"

definition percent :: "nat \<Rightarrow> jsstring" where
  "percent b = [37, hexDigit (b div 16), hexDigit (b mod 16)]"

definition utf8 :: "nat \<Rightarrow> nat list" where
  "utf8 cp =
     (if cp < 128 then [cp]
      else if cp < 2048 then [192 + cp div 64, 128 + cp mod 64]
      else if cp < 65536 then [224 + cp div 4096, 128 + (cp div 64) mod 64, 128 + cp mod 64]
      else [240 + cp div 262144, 128 + (cp div 4096) mod 64, 128 + (cp div 64) mod 64,
            128 + cp mod 64])"

definition unreserved :: "jschar \<Rightarrow> bool" where
  "unreserved c =
     ((48 \<le> c \<and> c \<le> 57) \<or> (65 \<le> c \<and> c \<le> 90) \<or> (97 \<le> c \<and> c \<le> 122)
      \<or> c \<in> set (js ''-_.!~*()'') \<or> c = 39)"

fun encodeURIComponent :: "jsstring \<Rightarrow> jserror + jsstring" where
  "encodeURIComponent [] = Inr []"
| "encodeURIComponent (c # s) =
     (if unreserved c then
        (case encodeURIComponent s of Inl e \<Rightarrow> Inl e | Inr r \<Rightarrow> Inr (c # r))
      else if c < 55296 \<or> 57343 < c then
        (case encodeURIComponent s of
           Inl e \<Rightarrow> Inl e
         | Inr r \<Rightarrow> Inr (concat (map percent (utf8 c)) @ r))
      else if c \<le> 56319 then
        (case s of
           [] \<Rightarrow> Inl URIError
         | d # s' \<Rightarrow>
             (if 56320 \<le> d \<and> d \<le> 57343 then
                (case encodeURIComponent s' of
                   Inl e \<Rightarrow> Inl e
                 | Inr r \<Rightarrow>
                     Inr (concat (map percent (utf8 ((c - 55296) * 1024 + (d - 56320) + 65536))) @ r))
              else Inl URIError))
      else Inl URIError)"

text \<open>\<open>window.location\<close>, as far as the classifier reads it.\<close>

record location =
  origin :: jsstring
  hostname :: jsstring

section \<open>URL classifier\<close>

text \<open>The object a parser returns; \<open>parseURL\<close> adds the original URL.\<close>

definition parsed ::
  "jsstring \<Rightarrow> string \<Rightarrow> jsstring list \<Rightarrow> jsstring \<Rightarrow> string \<Rightarrow> string \<Rightarrow> classified" where
  "parsed vid ty us thumb ttl descr =
     \<lparr>videoId = vid, type = js ty, embedUrls = us, thumbnail = Some thumb, title = js ttl,
      description = js descr, originalUrl = None\<rparr>"

text \<open>The first pattern of the list that matches, with its captures.\<close>

fun firstMatch :: "regex list \<Rightarrow> jsstring \<Rightarrow> jsstring list option" where
  "firstMatch [] u = None"
| "firstMatch (r # rs) u = (case str_match r u of Some caps \<Rightarrow> Some caps | None \<Rightarrow> firstMatch rs u)"

definition youtubePatterns :: "regex list" where
  "youtubePatterns =
     [Seq (Alt (Lit (js ''youtube.com/watch?v=''))
          (Alt (Lit (js ''youtu.be/''))
          (Alt (Lit (js ''youtube.com/embed/''))
          (Alt (Lit (js ''youtube.com/v/'')) (Lit (js ''youtube.com/shorts/''))))))
          (Group (Plus (noneOf ''&?/#''))),
      litGroup ''youtube.com/playlist?list='' (noneOf ''&?/#''),
      litGroup ''music.youtube.com/watch?v='' (noneOf ''&?/#'')]"

definition playlistThumbnail :: jsstring where
  "playlistThumbnail = js ''data:image/svg+xml;base64,PHN2ZyB3aWR0aD0iMTAwIiBoZWlnaHQ9IjcwIiB2aWV3Qm94PSIwIDAgMTAwIDcwIiBmaWxsPSJub25lIiB4bWxucz0iaHR0cDovL3d3dy53My5vcmcvMjAwMC9zdmciPjxyZWN0IHdpZHRoPSIxMDAiIGhlaWdodD0iNzAiIGZpbGw9IiNmMTBhMGIiLz48dGV4dCB4PSI1MCIgeT0iMzUiIGZvbnQtZmFtaWx5PSJBcmlhbCIgZm9udC1zaXplPSIxMCIgZmlsbD0id2hpdGUiIHRleHQtYW5jaG9yPSJtaWRkbGUiPllvdVR1YmUgUGxheWxpc3Q8L3RleHQ+PC9zdmc+''"

definition parseYouTube :: "location \<Rightarrow> jsstring \<Rightarrow> jserror + classified option" where
  "parseYouTube loc u =
     (case firstMatch youtubePatterns u of
        None \<Rightarrow> Inr None
      | Some caps \<Rightarrow>
          (let vid = caps ! 0 in
           case encodeURIComponent (origin loc) of
             Inl e \<Rightarrow> Inl e
           | Inr org \<Rightarrow>
               (if str_includes u (js ''playlist'') then
                  Inr (Some (parsed (js ''playlist-'' @ vid) ''youtube_playlist''
                    [js ''https://www.youtube.com/embed/videoseries?list='' @ vid
                       @ js ''&autoplay=1&modestbranding=1&rel=0&playsinline=1&origin='' @ org,
                     js ''https://www.youtube-nocookie.com/embed/videoseries?list='' @ vid
                       @ js ''&autoplay=1&modestbranding=1&rel=0&playsinline=1'']
                    playlistThumbnail ''YouTube Playlist'' ''YouTube Playlist''))
                else
                  Inr (Some (parsed vid ''youtube''
                    [js ''https://www.youtube.com/embed/'' @ vid
                       @ js ''?autoplay=1&modestbranding=1&rel=0&playsinline=1&origin='' @ org,
                     js ''https://www.youtube-nocookie.com/embed/'' @ vid
                       @ js ''?autoplay=1&modestbranding=1&rel=0&playsinline=1'',
                     js ''https://www.youtube.com/embed/'' @ vid @ js ''?autoplay=1&origin=*'']
                    (js ''https://img.youtube.com/vi/'' @ vid @ js ''/hqdefault.jpg'')
                    ''YouTube Video'' ''YouTube Video'')))))"

definition drivePatterns :: "regex list" where
  "drivePatterns =
     [litGroup ''drive.google.com/file/d/'' (noneOf ''/''),
      litGroup ''drive.google.com/open?id='' (noneOf ''&''),
      litGroup ''drive.google.com/uc?id='' (noneOf ''&''),
      litGroup ''drive.google.com/uc?export=download&id='' (noneOf ''&'')]"

definition parseGoogleDrive :: "jsstring \<Rightarrow> jserror + classified option" where
  "parseGoogleDrive u =
     (case firstMatch drivePatterns u of
        None \<Rightarrow> Inr None
      | Some caps \<Rightarrow>
          (let fileId = caps ! 0 in
           Inr (Some (parsed fileId ''drive''
             [js ''https://drive.google.com/file/d/'' @ fileId @ js ''/preview'',
              js ''https://drive.google.com/file/d/'' @ fileId @ js ''/view'']
             (js ''https://drive.google.com/thumbnail?id='' @ fileId @ js ''&sz=w400'')
             ''Google Drive Video'' ''Google Drive Video''))))"

definition vimeoPatterns :: "regex list" where
  "vimeoPatterns =
     [litGroup ''vimeo.com/'' digitClass, litGroup ''player.vimeo.com/video/'' digitClass]"

definition parseVimeo :: "jsstring \<Rightarrow> jserror + classified option" where
  "parseVimeo u =
     (case firstMatch vimeoPatterns u of
        None \<Rightarrow> Inr None
      | Some caps \<Rightarrow>
          (let vid = caps ! 0 in
           Inr (Some (parsed vid ''vimeo''
             [js ''https://player.vimeo.com/video/'' @ vid
                @ js ''?autoplay=1&title=0&byline=0&portrait=0&dnt=1'',
              js ''https://vimeo.com/'' @ vid]
             (js ''https://vumbnail.com/'' @ vid @ js ''.jpg'')
             ''Vimeo Video'' ''Vimeo Video''))))"

definition dailymotionPatterns :: "regex list" where
  "dailymotionPatterns =
     [litGroup ''dailymotion.com/video/'' (noneOf ''_''),
      litGroup ''dailymotion.com/embed/video/'' (noneOf ''?''),
      litGroup ''dai.ly/'' (noneOf ''?'')]"

definition parseDailymotion :: "jsstring \<Rightarrow> jserror + classified option" where
  "parseDailymotion u =
     (case firstMatch dailymotionPatterns u of
        None \<Rightarrow> Inr None
      | Some caps \<Rightarrow>
          (let vid = caps ! 0 in
           Inr (Some (parsed vid ''dailymotion''
             [js ''https://www.dailymotion.com/embed/video/'' @ vid @ js ''?autoplay=1'',
              js ''https://dailymotion.com/embed/video/'' @ vid]
             (js ''https://www.dailymotion.com/thumbnail/video/'' @ vid)
             ''Dailymotion Video'' ''Dailymotion Video''))))"

definition parseFacebook :: "jsstring \<Rightarrow> jserror + classified option" where
  "parseFacebook u =
     (if str_includes u (js ''facebook.com'') \<or> str_includes u (js ''fb.watch'') then
        (case encodeURIComponent u of
           Inl e \<Rightarrow> Inl e
         | Inr encodedUrl \<Rightarrow>
             (case btoaId u of
                Inl e \<Rightarrow> Inl e
              | Inr vid \<Rightarrow>
                  Inr (Some (parsed vid ''facebook''
                    [js ''https://www.facebook.com/plugins/video.php?href='' @ encodedUrl
                       @ js ''&show_text=0&autoplay=1&width=500'',
                     js ''https://www.facebook.com/plugins/video.php?href='' @ encodedUrl
                       @ js ''&show_text=0&autoplay=1'']
                    [] ''Facebook Video'' ''Facebook Video''))))
      else Inr None)"

definition instagramPatterns :: "regex list" where
  "instagramPatterns =
     [Seq (Lit (js ''instagram.com/''))
        (Seq (Alt (Lit (js ''p'')) (Alt (Lit (js ''reel'')) (Lit (js ''tv''))))
          (Seq (Lit (js ''/'')) (Group (Plus (noneOf ''/?''))))),
      Seq (Lit (js ''instagram.com/p/'')) (Seq (Group (Plus (noneOf ''/?''))) (Lit (js ''/embed'')))]"

definition parseInstagram :: "jsstring \<Rightarrow> jserror + classified option" where
  "parseInstagram u =
     (case firstMatch instagramPatterns u of
        None \<Rightarrow> Inr None
      | Some caps \<Rightarrow>
          (let code = caps ! 0 in
           Inr (Some (parsed code ''instagram''
             [js ''https://www.instagram.com/p/'' @ code @ js ''/embed/'',
              js ''https://www.instagram.com/reel/'' @ code @ js ''/embed/'',
              js ''https://www.instagram.com/tv/'' @ code @ js ''/embed/'']
             [] ''Instagram Video'' ''Instagram Video''))))"

text \<open>\<open>url.split('/').pop().split('?')[0]\<close>; \<open>split\<close> never returns an empty array.\<close>

definition parseTikTok :: "jsstring \<Rightarrow> jserror + classified option" where
  "parseTikTok u =
     (if str_includes u (js ''tiktok.com'') then
        (let vid = hd (split_on 63 (last (split_on 47 u))) in
         Inr (Some (parsed vid ''tiktok''
           [js ''https://www.tiktok.com/embed/v2/'' @ vid,
            js ''https://www.tiktok.com/embed/'' @ vid]
           [] ''TikTok Video'' ''TikTok Video'')))
      else Inr None)"

definition parseTwitter :: "jsstring \<Rightarrow> jserror + classified option" where
  "parseTwitter u =
     (if str_includes u (js ''twitter.com'') \<or> str_includes u (js ''x.com'') then
        (case encodeURIComponent u of
           Inl e \<Rightarrow> Inl e
         | Inr encodedUrl \<Rightarrow>
             (case btoaId u of
                Inl e \<Rightarrow> Inl e
              | Inr vid \<Rightarrow>
                  Inr (Some (parsed vid ''twitter''
                    [js ''https://twitframe.com/show?url='' @ encodedUrl,
                     js ''https://platform.twitter.com/embed/Tweet.html?url='' @ encodedUrl]
                    [] ''Twitter/X Video'' ''Twitter/X Video''))))
      else Inr None)"

definition twitchVideoPattern :: regex where
  "twitchVideoPattern = litGroup ''twitch.tv/videos/'' digitClass"

definition twitchClipPattern :: regex where
  "twitchClipPattern =
     Seq (Lit (js ''twitch.tv/''))
       (Seq (Plus wordClass) (Seq (Lit (js ''/clip/'')) (Group (Plus (noneOf ''?'')))))"

definition parseTwitch :: "location \<Rightarrow> jsstring \<Rightarrow> jserror + classified option" where
  "parseTwitch loc u =
     (case str_match twitchVideoPattern u of
        Some videoMatch \<Rightarrow>
          Inr (Some (parsed (videoMatch ! 0) ''twitch''
            [js ''https://player.twitch.tv/?video='' @ videoMatch ! 0 @ js ''&parent='' @ hostname loc
               @ js ''&autoplay=true'',
             js ''https://player.twitch.tv/?video='' @ videoMatch ! 0
               @ js ''&parent=localhost&autoplay=true'']
            [] ''Twitch Video'' ''Twitch Video''))
      | None \<Rightarrow>
          (case str_match twitchClipPattern u of
             Some clipMatch \<Rightarrow>
               Inr (Some (parsed (clipMatch ! 0) ''twitch''
                 [js ''https://clips.twitch.tv/embed?clip='' @ clipMatch ! 0 @ js ''&parent=''
                    @ hostname loc @ js ''&autoplay=true'',
                  js ''https://clips.twitch.tv/embed?clip='' @ clipMatch ! 0
                    @ js ''&parent=localhost&autoplay=true'']
                 [] ''Twitch Clip'' ''Twitch Clip''))
           | None \<Rightarrow> Inr None))"

definition streamablePattern :: regex where
  "streamablePattern = litGroup ''streamable.com/'' (noneOf ''?'')"

definition parseStreamable :: "jsstring \<Rightarrow> jserror + classified option" where
  "parseStreamable u =
     (case str_match streamablePattern u of
        Some m \<Rightarrow>
          Inr (Some (parsed (m ! 0) ''streamable''
            [js ''https://streamable.com/e/'' @ m ! 0 @ js ''?autoplay=1'',
             js ''https://streamable.com/o/'' @ m ! 0]
            [] ''Streamable Video'' ''Streamable Video''))
      | None \<Rightarrow> Inr None)"

definition dropboxPattern :: regex where
  "dropboxPattern =
     Seq (Lit (js ''dropbox.com/s/''))
       (Seq (Group (Plus (noneOf ''/''))) (Seq (Lit (js ''/'')) (Group (Plus (noneOf ''?'')))))"

definition parseDropbox :: "jsstring \<Rightarrow> jserror + classified option" where
  "parseDropbox u =
     (case str_match dropboxPattern u of
        Some m \<Rightarrow>
          Inr (Some (parsed (m ! 0) ''dropbox''
            [js ''https://www.dropbox.com/s/'' @ m ! 0 @ js ''/'' @ m ! 1 @ js ''?raw=1'',
             js ''https://dl.dropboxusercontent.com/s/'' @ m ! 0 @ js ''/'' @ m ! 1]
            [] ''Dropbox Video'' ''Dropbox Video''))
      | None \<Rightarrow> Inr None)"

definition parseGooglePhotos :: "jsstring \<Rightarrow> jserror + classified option" where
  "parseGooglePhotos u =
     (if str_includes u (js ''photos.app.goo.gl'') \<or> str_includes u (js ''photos.google.com'') then
        (case btoaId u of
           Inl e \<Rightarrow> Inl e
         | Inr vid \<Rightarrow> Inr (Some (parsed vid ''photos'' [u] [] ''Google Photos'' ''Google Photos'')))
      else Inr None)"

definition videoExtensions :: "jsstring list" where
  "videoExtensions = map js [''.mp4'', ''.webm'', ''.ogg'', ''.mov'', ''.mkv'', ''.flv'', ''.avi'']"

definition parseDirectVideo :: "jsstring \<Rightarrow> jserror + classified option" where
  "parseDirectVideo u =
     (let isVideo = list_ex (\<lambda>ext. str_includes (toLowerCase u) ext) videoExtensions in
      if isVideo then
        (case btoaId u of
           Inl e \<Rightarrow> Inl e
         | Inr vid \<Rightarrow> Inr (Some (parsed vid ''direct'' [u] [] ''Direct Video'' ''Direct Video File'')))
      else Inr None)"

definition parseUnknown :: "jsstring \<Rightarrow> jserror + classified" where
  "parseUnknown u =
     (case btoaId u of
        Inl e \<Rightarrow> Inl e
      | Inr vid \<Rightarrow> Inr (parsed vid ''other'' [u] [] ''Custom Video'' ''Video from unknown source''))"

text \<open>The array \<open>parsers\<close> of \<open>parseURL\<close>, in its order.\<close>

definition parsers :: "location \<Rightarrow> (jsstring \<Rightarrow> jserror + classified option) list" where
  "parsers loc =
     [parseYouTube loc, parseGoogleDrive, parseVimeo, parseDailymotion, parseFacebook,
      parseInstagram, parseTikTok, parseTwitter, parseTwitch loc, parseStreamable, parseDropbox,
      parseGooglePhotos, parseDirectVideo]"

text \<open>
  The loop of \<open>parseURL\<close> over the parsers: the first result that is not \<open>null\<close>, with
  the original URL added; an exception of a parser leaves the loop.
\<close>

fun tryParsers ::
  "(jsstring \<Rightarrow> jserror + classified option) list \<Rightarrow> jsstring \<Rightarrow> jserror + classified option" where
  "tryParsers [] u = Inr None"
| "tryParsers (parser # ps) u =
     (case parser u of
        Inl e \<Rightarrow> Inl e
      | Inr (Some result) \<Rightarrow> Inr (Some (result\<lparr>originalUrl := Some u\<rparr>))
      | Inr None \<Rightarrow> tryParsers ps u)"

text \<open>\<open>parseURL\<close>; the result \<open>None\<close> is \<open>null\<close>, for the empty URL.\<close>

definition parseURL :: "location \<Rightarrow> jsstring \<Rightarrow> jserror + classified option" where
  "parseURL loc u =
     (if u = [] then Inr None
      else (case tryParsers (parsers loc) u of
              Inl e \<Rightarrow> Inl e
            | Inr (Some result) \<Rightarrow> Inr (Some result)
            | Inr None \<Rightarrow> (case parseUnknown u of Inl e \<Rightarrow> Inl e | Inr r \<Rightarrow> Inr (Some r))))"

section \<open>The platforms of the specification\<close>

text \<open>
  The known platforms in the order of their parsers, what it means for a URL to match a
  platform's pattern, and the type a platform gives a URL: the YouTube parser gives
  \<open>youtube_playlist\<close> to every URL that contains \<open>playlist\<close>.
\<close>

datatype platform =
    P_youtube | P_drive | P_vimeo | P_dailymotion | P_facebook | P_instagram | P_tiktok
  | P_twitter | P_twitch | P_streamable | P_dropbox | P_photos | P_direct

definition platformOrder :: "platform list" where
  "platformOrder =
     [P_youtube, P_drive, P_vimeo, P_dailymotion, P_facebook, P_instagram, P_tiktok,
      P_twitter, P_twitch, P_streamable, P_dropbox, P_photos, P_direct]"

definition anyMatch :: "regex list \<Rightarrow> jsstring \<Rightarrow> bool" where
  "anyMatch rs u = list_ex (\<lambda>r. str_match r u \<noteq> None) rs"

fun matchesPlatform :: "platform \<Rightarrow> jsstring \<Rightarrow> bool" where
  "matchesPlatform P_youtube u = anyMatch youtubePatterns u"
| "matchesPlatform P_drive u = anyMatch drivePatterns u"
| "matchesPlatform P_vimeo u = anyMatch vimeoPatterns u"
| "matchesPlatform P_dailymotion u = anyMatch dailymotionPatterns u"
| "matchesPlatform P_facebook u =
     (str_includes u (js ''facebook.com'') \<or> str_includes u (js ''fb.watch''))"
| "matchesPlatform P_instagram u = anyMatch instagramPatterns u"
| "matchesPlatform P_tiktok u = str_includes u (js ''tiktok.com'')"
| "matchesPlatform P_twitter u =
     (str_includes u (js ''twitter.com'') \<or> str_includes u (js ''x.com''))"
| "matchesPlatform P_twitch u = anyMatch [twitchVideoPattern, twitchClipPattern] u"
| "matchesPlatform P_streamable u = anyMatch [streamablePattern] u"
| "matchesPlatform P_dropbox u = anyMatch [dropboxPattern] u"
| "matchesPlatform P_photos u =
     (str_includes u (js ''photos.app.goo.gl'') \<or> str_includes u (js ''photos.google.com''))"
| "matchesPlatform P_direct u =
     list_ex (\<lambda>ext. str_includes (toLowerCase u) ext) videoExtensions"

fun platformType :: "platform \<Rightarrow> jsstring \<Rightarrow> jsstring" where
  "platformType P_youtube u =
     (if str_includes u (js ''playlist'') then js ''youtube_playlist'' else js ''youtube'')"
| "platformType P_drive u = js ''drive''"
| "platformType P_vimeo u = js ''vimeo''"
| "platformType P_dailymotion u = js ''dailymotion''"
| "platformType P_facebook u = js ''facebook''"
| "platformType P_instagram u = js ''instagram''"
| "platformType P_tiktok u = js ''tiktok''"
| "platformType P_twitter u = js ''twitter''"
| "platformType P_twitch u = js ''twitch''"
| "platformType P_streamable u = js ''streamable''"
| "platformType P_dropbox u = js ''dropbox''"
| "platformType P_photos u = js ''photos''"
| "platformType P_direct u = js ''direct''"

text \<open>The parser of a platform.\<close>

fun parserOf :: "location \<Rightarrow> platform \<Rightarrow> jsstring \<Rightarrow> jserror + classified option" where
  "parserOf loc P_youtube = parseYouTube loc"
| "parserOf loc P_drive = parseGoogleDrive"
| "parserOf loc P_vimeo = parseVimeo"
| "parserOf loc P_dailymotion = parseDailymotion"
| "parserOf loc P_facebook = parseFacebook"
| "parserOf loc P_instagram = parseInstagram"
| "parserOf loc P_tiktok = parseTikTok"
| "parserOf loc P_twitter = parseTwitter"
| "parserOf loc P_twitch = parseTwitch loc"
| "parserOf loc P_streamable = parseStreamable"
| "parserOf loc P_dropbox = parseDropbox"
| "parserOf loc P_photos = parseGooglePhotos"
| "parserOf loc P_direct = parseDirectVideo"

text \<open>Strings whose code units are all in Latin-1, and the location of a local page.\<close>

definition latin1 :: "jsstring \<Rightarrow> bool" where
  "latin1 s = list_all (\<lambda>c. c \<le> 255) s"

definition demoLocation :: location where
  "demoLocation = \<lparr>origin = js ''http://localhost:8000'', hostname = js ''localhost''\<rparr>"

text \<open>
  What a platform's parser owes on a URL: a result of the platform's type with at least
  one embed URL when the platform's pattern matches, and \<open>null\<close> otherwise.
\<close>

definition parserSpec :: "location \<Rightarrow> platform \<Rightarrow> jsstring \<Rightarrow> bool" where
  "parserSpec loc P u =
     (if matchesPlatform P u
      then (\<exists>r. parserOf loc P u = Inr (Some r) \<and> classified.type r = platformType P u
                \<and> classified.embedUrls r \<noteq> [])
      else parserOf loc P u = Inr None)"

section \<open>String literals\<close>

lemma js_inj: "js a = js b \<longleftrightarrow> a = b"
  unfolding js_def by (rule inj_map_eq_map) (simp add: inj_on_def)

lemma js_eq_Nil: "js s = [] \<longleftrightarrow> s = []"
  by (simp add: js_def)

section \<open>Catalog search is a subsequence match\<close>

lemma fuzzyMatch_loop_subseq:
  "searchIndex < length search \<Longrightarrow>
   fuzzyMatch_loop t search searchIndex = subseq (drop searchIndex search) t"
proof (induction t arbitrary: searchIndex)
  case Nil
  then show ?case by simp
next
  case (Cons c t)
  obtain x xs where d: "drop searchIndex search = x # xs" and x: "x = search ! searchIndex"
    and xs: "xs = drop (Suc searchIndex) search"
    using Cons.prems by (metis Cons_nth_drop_Suc)
  show ?case
  proof (cases "c = search ! searchIndex")
    case True
    show ?thesis
    proof (cases "Suc searchIndex = length search")
      case e: True
      then have "xs = []" using xs by simp
      with True e d x Cons.prems show ?thesis by simp
    next
      case ne: False
      then have "Suc searchIndex < length search" using Cons.prems by simp
      from Cons.IH[OF this] True ne d x xs Cons.prems show ?thesis by simp
    qed
  next
    case False
    with Cons.IH[OF Cons.prems] d x Cons.prems show ?thesis by (simp add: Let_def)
  qed
qed

lemma fuzzyMatch_subseq: "search \<noteq> [] \<Longrightarrow> fuzzyMatch t search = subseq search t"
  using fuzzyMatch_loop_subseq[of 0 search t] by (simp add: fuzzyMatch_def)

text \<open>
  C7. For a search term of length at least 2 and any list of videos, \<open>searchVideos\<close>
  keeps exactly the entries one of whose fields title, description, type, tags, category
  and author loosely matches the term: the lowercased term is a subsequence of the
  lowercased field value.
\<close>

theorem searchVideos_subsequence:
  assumes "2 \<le> length searchTerm"
  shows "searchVideos videos searchTerm = filter (\<lambda>v. searchHit v searchTerm) videos"
proof -
  have ne: "toLowerCase searchTerm \<noteq> []"
    using assms by (auto simp: toLowerCase_def)
  show ?thesis
    unfolding searchVideos_def Let_def
    by (rule filter_cong)
       (simp_all add: SEARCH_FIELDS_def FUZZY_SEARCH_def searchHit_def looseMatch_def
          fuzzyMatch_subseq[OF ne])
qed

text \<open>
  The term \<open>CTV\<close> is found in the title \<open>Cat Video\<close> (c, t, v in order) and in no field
  of the second entry.
\<close>

theorem searchVideos_subsequence_witness:
  "2 \<le> length (js ''CTV'') \<and>
   filter (\<lambda>v. searchHit v (js ''CTV''))
     [demoVideo ''r1'' ''vimeo'' ''Cat Video'' [] ''active'',
      demoVideo ''r2'' ''drive'' ''Dog'' [''x''] ''active'']
   = [demoVideo ''r1'' ''vimeo'' ''Cat Video'' [] ''active'']"
proof -
  have h: "2 \<le> length (js ''CTV'')"
    by (simp add: js_def)
  have e: "searchVideos
      [demoVideo ''r1'' ''vimeo'' ''Cat Video'' [] ''active'',
       demoVideo ''r2'' ''drive'' ''Dog'' [''x''] ''active''] (js ''CTV'')
     = [demoVideo ''r1'' ''vimeo'' ''Cat Video'' [] ''active'']"
    by code_simp
  show ?thesis
    using h e searchVideos_subsequence [OF h] by simp
qed

section \<open>The recently-played ledger\<close>

lemma findIndex_None: "findIndex P xs = None \<longleftrightarrow> (\<forall>x \<in> set xs. \<not> P x)"
  by (induction xs) auto

lemma findIndex_Some:
  "findIndex P xs = Some i \<Longrightarrow> i < length xs \<and> P (xs ! i) \<and> (\<forall>j < i. \<not> P (xs ! j))"
proof (induction xs arbitrary: i)
  case Nil
  then show ?case by simp
next
  case (Cons x xs)
  show ?case
  proof (cases "P x")
    case True
    with Cons.prems show ?thesis by simp
  next
    case False
    with Cons.prems obtain k where k: "findIndex P xs = Some k" "i = Suc k"
      by auto
    from Cons.IH[OF k(1)] False k(2) show ?thesis
      by (auto simp: nth_Cons split: nat.splits)
  qed
qed

text \<open>
  The ledger never holds more than 50 records, its first record is the one just played,
  and no entry has two records.
\<close>

lemma distinct_map_take: "distinct (map f xs) \<Longrightarrow> distinct (map f (take n xs))"
  by (simp add: take_map[symmetric] distinct_take)


lemma addToRecentlyPlayed_length: "length (addToRecentlyPlayed now ledger vid) \<le> 50"
  by (simp add: addToRecentlyPlayed_def Let_def)

lemma addToRecentlyPlayed_front:
  "played_id (hd (addToRecentlyPlayed now ledger vid)) = vid
   \<and> playedAt (hd (addToRecentlyPlayed now ledger vid)) = now"
  by (simp add: addToRecentlyPlayed_def Let_def)

lemma spliced_no_vid:
  assumes "distinct (map played_id ledger)" and "findIndex (\<lambda>v. played_id v = vid) ledger = Some i"
  shows "vid \<notin> played_id ` set (take i ledger @ drop (Suc i) ledger)"
proof -
  from findIndex_Some[OF assms(2)] have i: "i < length ledger" "played_id (ledger ! i) = vid"
    by simp_all
  have l: "ledger = take i ledger @ (ledger ! i) # drop (Suc i) ledger"
    using i(1) by (simp add: id_take_nth_drop)
  have "distinct (map played_id (take i ledger @ (ledger ! i) # drop (Suc i) ledger))"
    using assms(1) l by simp
  then show ?thesis using i(2) by auto
qed

lemma addToRecentlyPlayed_distinct:
  assumes "distinct (map played_id ledger)"
  shows "distinct (map played_id (addToRecentlyPlayed now ledger vid))"
proof (cases "findIndex (\<lambda>v. played_id v = vid) ledger")
  case None
  then have "vid \<notin> played_id ` set ledger" by (auto simp: findIndex_None)
  with assms None have "distinct (map played_id (\<lparr>played_id = vid, playedAt = now, playCount = n\<rparr> # ledger))" for n
    by simp
  from distinct_map_take[OF this] None show ?thesis
    by (simp add: addToRecentlyPlayed_def Let_def del: take_Cons_numeral)
next
  case (Some i)
  let ?sp = "take i ledger @ drop (Suc i) ledger"
  from findIndex_Some[OF Some] have i: "i < length ledger" by simp
  have l: "ledger = take i ledger @ (ledger ! i) # drop (Suc i) ledger"
    using i by (simp add: id_take_nth_drop)
  have "distinct (map played_id (take i ledger @ (ledger ! i) # drop (Suc i) ledger))"
    using assms l by simp
  then have d: "distinct (map played_id ?sp)" by auto
  from spliced_no_vid[OF assms Some] d
  have "distinct (map played_id (\<lparr>played_id = vid, playedAt = now, playCount = n\<rparr> # ?sp))" for n
    by (simp add: image_Un)
  from distinct_map_take[OF this] Some show ?thesis
    by (simp add: addToRecentlyPlayed_def Let_def del: take_Cons_numeral)
qed

lemma addToRecentlyPlayed_count_one:
  assumes "distinct (map played_id ledger)"
  shows "played.playCount (hd (addToRecentlyPlayed now ledger vid)) = 1"
proof (cases "findIndex (\<lambda>v. played_id v = vid) ledger")
  case None
  then have "find (\<lambda>v. played_id v = vid) ledger = None"
    by (auto simp: findIndex_None find_None_iff)
  with None show ?thesis
    by (simp add: addToRecentlyPlayed_def getRecentlyPlayedData_def Let_def)
next
  case (Some i)
  from spliced_no_vid[OF assms Some]
  have "find (\<lambda>v. played_id v = vid) (take i ledger @ drop (Suc i) ledger) = None"
    by (auto simp: find_None_iff)
  with Some show ?thesis
    by (simp add: addToRecentlyPlayed_def getRecentlyPlayedData_def Let_def)
qed

text \<open>
  C4. The claim says that replaying an entry already in the ledger increments its stored
  play count. The code removes the entry's record before it reads the count, so the
  record it puts in front counts from zero again: after two plays of the same entry the
  ledger holds one record with play count 1. (In a ledger without duplicates the record
  put in front always has play count 1: \<open>addToRecentlyPlayed_count_one\<close>.)
\<close>

theorem addToRecentlyPlayed_replay_resets_count:
  "addToRecentlyPlayed 2000 (addToRecentlyPlayed 1000 [] (js ''rec1'')) (js ''rec1'')
     = [\<lparr>played_id = js ''rec1'', playedAt = 2000, playCount = 1\<rparr>]"
  by (simp add: addToRecentlyPlayed_def getRecentlyPlayedData_def js_def)

section \<open>The popularity score\<close>

lemma analyticsPopularityScore_nonneg: "0 \<le> analyticsPopularityScore now st v"
  by (simp add: analyticsPopularityScore_def Let_def split: option.split)

text \<open>
  C5 (as amended). The score of \<open>calculatePopularityScore\<close> is
  \<open>viewCount + 10 * recentPlayCount\<close> plus half the score of the analytics
  (\<open>10 * playCount + 20 * completionCount + recencyBonus\<close> of the statistics kept for the
  entry); this score decides the popularity badge (above 10) and orders the sort option
  \<open>popularity\<close>, descending.
\<close>

theorem calculatePopularityScore_formula:
  "calculatePopularityScore now m v
     = specPopularity m v + analyticsPopularityScore now (stats m) v / 2
   \<and> popularityBadge now m v
     = (10 < specPopularity m v + analyticsPopularityScore now (stats m) v / 2)
   \<and> sortVideos rt now m videos (js ''popularity'')
     = sort_cmp (\<lambda>a b. Some (calculatePopularityScore now m b - calculatePopularityScore now m a)) videos"
proof -
  have a: "calculatePopularityScore now m v
     = specPopularity m v + analyticsPopularityScore now (stats m) v / 2"
    by (simp add: calculatePopularityScore_def specPopularity_def recentPlayCount_def
        getRecentlyPlayedData_def Let_def)
  have b: "sortVideos rt now m videos (js ''popularity'')
     = sort_cmp (\<lambda>a b. Some (calculatePopularityScore now m b - calculatePopularityScore now m a)) videos"
    by (simp add: sortVideos_def js_inj Let_def)
  show ?thesis using a b by (simp add: popularityBadge_def)
qed

text \<open>
  C5 as stated fails: once one play of an entry has been tracked at time 0, its score at
  time 0 is 55, while \<open>viewCount + 10 * recentPlayCount\<close> is 0.
\<close>

theorem popularity_counterexample:
  "calculatePopularityScore 0
      (newManager\<lparr>stats := trackVideoEvent 0 Map.empty E_play (demoVideo ''r1'' ''vimeo'' ''Cat'' [] ''active'') 0\<rparr>)
      (demoVideo ''r1'' ''vimeo'' ''Cat'' [] ''active'') = 55
   \<and> specPopularity
      (newManager\<lparr>stats := trackVideoEvent 0 Map.empty E_play (demoVideo ''r1'' ''vimeo'' ''Cat'' [] ''active'') 0\<rparr>)
      (demoVideo ''r1'' ''vimeo'' ''Cat'' [] ''active'') = 0"
  by (simp add: calculatePopularityScore_def specPopularity_def recentPlayCount_def
        getRecentlyPlayedData_def analyticsPopularityScore_def trackVideoEvent_def
        updateVideoStats_def getVideoStats_def newManager_def demoVideo_def Let_def)

section \<open>No inactive entry in a catalog view\<close>

lemma set_insort_cmp: "set (insort_cmp cmp x xs) = insert x (set xs)"
  by (induction xs) auto

lemma set_sort_cmp: "set (sort_cmp cmp xs) = set xs"
  unfolding sort_cmp_def by (induction xs) (simp_all add: set_insort_cmp)

lemma set_getPopularVideos: "set (getPopularVideos now st videos limit) \<subseteq> set videos"
proof
  fix v assume "v \<in> set (getPopularVideos now st videos limit)"
  then obtain p where p: "p \<in> set (take limit (sort_cmp (\<lambda>a b. Some (snd b - snd a))
        (map (\<lambda>v. (v, analyticsPopularityScore now st v)) videos)))" and v: "v = fst p"
    unfolding getPopularVideos_def set_map by blast
  from p have "p \<in> set (sort_cmp (\<lambda>a b. Some (snd b - snd a))
        (map (\<lambda>v. (v, analyticsPopularityScore now st v)) videos))"
    by (rule in_set_takeD)
  then have "p \<in> set (map (\<lambda>v. (v, analyticsPopularityScore now st v)) videos)"
    by (simp only: set_sort_cmp)
  with v show "v \<in> set videos" by auto
qed
lemma set_sortVideos: "set (sortVideos rt now m videos sortOption) \<subseteq> set videos"
proof -
  have a: "\<And>cmp. set (sort_cmp cmp videos) \<subseteq> set videos"
    by (simp only: set_sort_cmp subset_refl)
  have b: "set (getPopularVideos now (stats m) videos (length videos)) \<subseteq> set videos"
    by (rule set_getPopularVideos)
  show ?thesis
    unfolding sortVideos_def
    apply (simp only: if_distrib[of set] if_distrib[of "\<lambda>s. s \<subseteq> set videos"])
    apply (simp only: a b subset_refl if_True if_False if_cancel simp_thms)
    done
qed

lemma set_searchVideos: "set (searchVideos videos searchTerm) \<subseteq> set videos"
  by (simp add: searchVideos_def Let_def)

lemma set_applyFiltersAndSearch:
  "set (filteredVideos (applyFiltersAndSearch rt now m)) \<subseteq> set (allVideos m)"
proof -
  obtain r1 where r1: "r1 = (if currentFilters_platform m \<noteq> [] \<and> currentFilters_platform m \<noteq> js ''all''
             then filter (\<lambda>v. classified.type v = currentFilters_platform m) (allVideos m)
             else allVideos m)" by simp
  obtain r2 where r2: "r2 = (if currentSearchTerm m \<noteq> [] \<and> length (currentSearchTerm m) \<ge> MIN_SEARCH_LENGTH
             then searchVideos r1 (currentSearchTerm m) else r1)" by simp
  have 1: "set r1 \<subseteq> set (allVideos m)" unfolding r1 by auto
  have 2: "set r2 \<subseteq> set r1"
    unfolding r2 using set_searchVideos[of r1 "currentSearchTerm m"] by simp
  have 3: "filteredVideos (applyFiltersAndSearch rt now m) = sortVideos rt now m r2 (currentSortOption m)"
    unfolding r2 r1 by (simp add: applyFiltersAndSearch_def Let_def)
  have 4: "set (sortVideos rt now m r2 (currentSortOption m)) \<subseteq> set r2"
    by (rule set_sortVideos)
  show ?thesis unfolding 3 using 4 2 1 by (meson subset_trans)
qed

lemma allVideos_applyFiltersAndSearch: "allVideos (applyFiltersAndSearch rt now m) = allVideos m"
  by (simp add: applyFiltersAndSearch_def Let_def)

lemma getAllVideos_clean:
  assumes "case cache svc of Some c \<Rightarrow> clean c | None \<Rightarrow> True"
    and "getAllVideos svc nowIso response = (res, svc')"
  shows "(case res of Inr vs \<Rightarrow> clean vs | Inl e \<Rightarrow> True)
       \<and> (case cache svc' of Some c \<Rightarrow> clean c | None \<Rightarrow> True)"
proof (cases "cache svc")
  case (Some c)
  with assms show ?thesis by (auto simp: getAllVideos_def)
next
  case None
  show ?thesis
  proof (cases response)
    case (Inl e)
    with None assms show ?thesis by (auto simp: getAllVideos_def)
  next
    case (Inr rs)
    with None assms show ?thesis
      by (cases rs) (auto simp: getAllVideos_def clean_def Let_def)
  qed
qed


lemma clean_subset: "set xs \<subseteq> set ys \<Longrightarrow> clean ys \<Longrightarrow> clean xs"
  by (auto simp: clean_def)

lemma clean_applyFiltersAndSearch:
  "clean (allVideos m) \<Longrightarrow> clean (filteredVideos (applyFiltersAndSearch rt now m))
     \<and> clean (allVideos (applyFiltersAndSearch rt now m))"
  using clean_subset[OF set_applyFiltersAndSearch] by (simp add: allVideos_applyFiltersAndSearch)

lemma reachable_cleanState: "reachable m svc \<Longrightarrow> cleanState m svc"
proof (induction rule: reachable.induct)
  case init
  show ?case by (simp add: cleanState_def clean_def newManager_def newAirtable_def)
next
  case (load m svc rt now nowIso response vs m' svc')
  show ?case
  proof (cases "isLoading m")
    case True
    with load show ?thesis by (simp add: loadVideos_def)
  next
    case False
    obtain res s1 where g: "getAllVideos svc nowIso response = (res, s1)"
      by (cases "getAllVideos svc nowIso response")
    from load.IH have c: "case cache svc of Some c \<Rightarrow> clean c | None \<Rightarrow> True"
      by (simp add: cleanState_def)
    note gc = getAllVideos_clean[OF c g]
    show ?thesis
    proof (cases res)
      case (Inl e)
      with False g load.hyps(2) have "m' = m\<lparr>isLoading := False\<rparr>" "svc' = s1"
        by (simp_all add: loadVideos_def)
      with gc load.IH show ?thesis by (simp add: cleanState_def)
    next
      case (Inr fresh)
      with False g load.hyps(2)
      have m': "m' = (applyFiltersAndSearch rt now (m\<lparr>allVideos := fresh\<rparr>))\<lparr>isLoading := False\<rparr>"
        and s: "svc' = s1"
        by (simp_all add: loadVideos_def Let_def)
      from gc Inr have "clean (allVideos (m\<lparr>allVideos := fresh\<rparr>))" by simp
      from clean_applyFiltersAndSearch[OF this, of rt now] gc m' s
      show ?thesis by (simp add: cleanState_def)
    qed
  qed
next
  case (query m svc rt now s t p)
  then have "clean (allVideos (m\<lparr>currentFilters_platform := p, currentSearchTerm := t, currentSortOption := s\<rparr>))"
    by (simp add: cleanState_def)
  from clean_applyFiltersAndSearch[OF this, of rt now] query.IH
  show ?case by (simp add: cleanState_def)
next
  case (play m svc now vid r m')
  then show ?case
    by (auto simp: cleanState_def loadVideoById_def split: option.splits)
next
  case (track m svc now ev v dur)
  then show ?case by (simp add: cleanState_def)
next
  case (expire m svc)
  then show ?case by (simp add: cleanState_def)
next
  case (add m svc created rt now)
  then have "clean (allVideos (m\<lparr>allVideos := allVideos m @ [created]\<rparr>))"
    by (simp add: cleanState_def clean_def)
  from clean_applyFiltersAndSearch[OF this, of rt now]
  show ?case by (simp add: cleanState_def)
qed

text \<open>
  C9. In every reachable state no entry of the full set \<open>allVideos\<close> and none of the
  view \<open>filteredVideos\<close> (whatever platform filter, search term and sort option produced
  it) has the status \<open>inactive\<close>, and every list \<open>getAllVideos\<close> returns from the store
  or from its cache excludes the records whose status is \<open>inactive\<close>.
\<close>

theorem catalog_views_exclude_inactive:
  assumes "reachable m svc"
  shows "(\<forall>v \<in> set (allVideos m). video.status v \<noteq> js ''inactive'') \<and>
         (\<forall>v \<in> set (filteredVideos m). video.status v \<noteq> js ''inactive'') \<and>
         (\<forall>nowIso response vs svc'. getAllVideos svc nowIso response = (Inr vs, svc')
            \<longrightarrow> (\<forall>v \<in> set vs. video.status v \<noteq> js ''inactive''))"
proof -
  from reachable_cleanState[OF assms]
  have a: "clean (allVideos m)" and f: "clean (filteredVideos m)"
    and c: "case cache svc of Some c \<Rightarrow> clean c | None \<Rightarrow> True"
    by (simp_all add: cleanState_def)
  have g: "\<forall>v \<in> set vs. video.status v \<noteq> js ''inactive''"
    if "getAllVideos svc nowIso response = (Inr vs, svc')" for nowIso response vs svc'
    using getAllVideos_clean[OF c that] by (simp add: clean_def)
  from a f g show ?thesis unfolding clean_def by blast
qed

text \<open>
  The store answers with the inactive record \<open>rec1\<close> and the record \<open>rec2\<close>, which has
  no status: the catalog loaded from it is reachable and holds \<open>rec2\<close> alone.
\<close>

theorem catalog_views_exclude_inactive_witness:
  "reachable (fst (snd demoLoaded)) (snd (snd demoLoaded)) \<and>
   map recordId (allVideos (fst (snd demoLoaded))) = [js ''rec2''] \<and>
   map recordId (filteredVideos (fst (snd demoLoaded))) = [js ''rec2''] \<and>
   list_all (\<lambda>v. video.status v \<noteq> js ''inactive'') (filteredVideos (fst (snd demoLoaded)))"
proof -
  have r: "reachable (fst (snd demoLoaded)) (snd (snd demoLoaded))"
    unfolding demoLoaded_def
    by (rule reachable.load[OF reachable.init, of demoRuntime 0 "js ''2024-01-01''" demoResponse
          "fst (loadVideos demoRuntime 0 (js ''2024-01-01'') newManager newAirtable demoResponse)"])
       simp
  have e: "map recordId (allVideos (fst (snd demoLoaded))) = [js ''rec2'']"
          "map recordId (filteredVideos (fst (snd demoLoaded))) = [js ''rec2'']"
    by (simp_all add: demoLoaded_def loadVideos_def getAllVideos_def newManager_def newAirtable_def
        demoResponse_def demoFields_def toVideo_def orElse_def applyFiltersAndSearch_def
        sortVideos_def js_inj js_eq_Nil Let_def)
  from catalog_views_exclude_inactive[OF r]
  have "list_all (\<lambda>v. video.status v \<noteq> js ''inactive'') (filteredVideos (fst (snd demoLoaded)))"
    by (simp add: list_all_iff)
  with r e show ?thesis by simp
qed


section \<open>The duplicate guard\<close>


lemma isDuplicate_similar:
  "list_ex (\<lambda>e. checkSimilarity c e (similarityThreshold svc)) ex \<Longrightarrow> fst (isDuplicate svc c ex)"
  by (simp add: isDuplicate_def Let_def)



text \<open>
  The loops of \<open>editDistance\<close> compute the edit distance of the lowercased strings, so
  the similarity does not depend on the order of its arguments and is 1 for two equal
  strings that are not empty.
\<close>

lemma lev_zero_right: "lev s1 s2 i 0 = i"
  by (cases i) simp_all

lemma innerInv_start: "innerInv s1 s2 i 0 (levRow s1 s2 i, Suc i)"
  by (simp add: innerInv_def levRow_def nth_append del: upt_Suc)

lemma innerInv_step0:
  "innerInv s1 s2 i 0 st \<Longrightarrow> innerInv s1 s2 i (Suc 0) (editDistance_inner s1 s2 (Suc i) st 0)"
  by (simp add: innerInv_def editDistance_inner_def Let_def)

lemma innerInv_step:
  assumes "innerInv s1 s2 i (Suc k) st" and "Suc k \<le> length s2"
  shows "innerInv s1 s2 i (Suc (Suc k)) (editDistance_inner s1 s2 (Suc i) st (Suc k))"
proof -
  from assms have len: "length (fst st) = Suc (length s2)"
    and new: "\<forall>t < k. fst st ! t = lev s1 s2 (Suc i) t"
    and old: "\<forall>t. k \<le> t \<and> t \<le> length s2 \<longrightarrow> fst st ! t = lev s1 s2 i t"
    and lv: "snd st = lev s1 s2 (Suc i) k"
    by (simp_all add: innerInv_def)
  from old assms(2) have ok: "fst st ! k = lev s1 s2 i k" and osk: "fst st ! Suc k = lev s1 s2 i (Suc k)"
    by simp_all
  let ?nv = "if s1 ! i \<noteq> s2 ! k
             then min (min (fst st ! k) (snd st)) (fst st ! Suc k) + 1 else fst st ! k"
  have st': "editDistance_inner s1 s2 (Suc i) st (Suc k) = ((fst st)[k := snd st], ?nv)"
    by (simp add: editDistance_inner_def Let_def)
  have nv: "?nv = lev s1 s2 (Suc i) (Suc k)"
    using ok osk lv by simp
  have a: "\<forall>t < Suc k. ((fst st)[k := snd st]) ! t = lev s1 s2 (Suc i) t"
  proof (intro allI impI)
    fix t assume "t < Suc k"
    then consider "t < k" | "t = k" by linarith
    then show "((fst st)[k := snd st]) ! t = lev s1 s2 (Suc i) t"
    proof cases
      case 1
      with new show ?thesis by simp
    next
      case 2
      with lv len assms(2) show ?thesis by simp
    qed
  qed
  have b: "\<forall>t. Suc k \<le> t \<and> t \<le> length s2 \<longrightarrow> ((fst st)[k := snd st]) ! t = lev s1 s2 i t"
    using old by simp
  show ?thesis
    unfolding st' using len a b nv by (simp add: innerInv_def)
qed

lemma innerInv_fold:
  "k \<le> Suc (length s2) \<Longrightarrow>
   innerInv s1 s2 i k (foldl (editDistance_inner s1 s2 (Suc i)) (levRow s1 s2 i, Suc i) [0..<k])"
proof (induction k)
  case 0
  show ?case by (simp add: innerInv_start)
next
  case (Suc k)
  then have ih: "innerInv s1 s2 i k (foldl (editDistance_inner s1 s2 (Suc i)) (levRow s1 s2 i, Suc i) [0..<k])"
    by simp
  show ?case
  proof (cases k)
    case 0
    with ih innerInv_step0 show ?thesis by simp
  next
    case (Suc k')
    with Suc.prems have "Suc k' \<le> length s2" by simp
    from innerInv_step[OF ih[unfolded Suc] this] Suc show ?thesis by simp
  qed
qed

lemma outer_Suc: "editDistance_outer s1 s2 (levRow s1 s2 i) (Suc i) = levRow s1 s2 (Suc i)"
proof -
  let ?st = "foldl (editDistance_inner s1 s2 (Suc i)) (levRow s1 s2 i, Suc i) [0..<Suc (length s2)]"
  have inv: "innerInv s1 s2 i (Suc (length s2)) ?st"
    by (rule innerInv_fold) simp
  then have len: "length (fst ?st) = Suc (length s2)"
    and new: "\<forall>t < length s2. fst ?st ! t = lev s1 s2 (Suc i) t"
    and lv: "snd ?st = lev s1 s2 (Suc i) (length s2)"
    by (simp_all add: innerInv_def)
  have "(fst ?st)[length s2 := snd ?st] = levRow s1 s2 (Suc i)"
  proof (rule nth_equalityI)
    show "length ((fst ?st)[length s2 := snd ?st]) = length (levRow s1 s2 (Suc i))"
      using len by (simp add: levRow_def)
  next
    fix t assume "t < length ((fst ?st)[length s2 := snd ?st])"
    then have t: "t < Suc (length s2)" using len by simp
    then consider "t < length s2" | "t = length s2" by linarith
    then show "((fst ?st)[length s2 := snd ?st]) ! t = levRow s1 s2 (Suc i) ! t"
    proof cases
      case 1
      with new show ?thesis by (simp add: levRow_def nth_append del: upt_Suc)
    next
      case 2
      with lv len show ?thesis by (simp add: levRow_def nth_append)
    qed
  qed
  then show ?thesis by (simp add: editDistance_outer_def Let_def del: upt_Suc)
qed

lemma row0_fold:
  "k \<le> length costs \<Longrightarrow>
   fst (foldl (editDistance_inner s1 s2 0) (costs, lv) [0..<k])
     = [0..<k] @ drop k costs"
proof (induction k)
  case 0
  show ?case by simp
next
  case (Suc k)
  then have ih: "fst (foldl (editDistance_inner s1 s2 0) (costs, lv) [0..<k]) = [0..<k] @ drop k costs"
    by simp
  have "fst (foldl (editDistance_inner s1 s2 0) (costs, lv) [0..<Suc k])
      = (fst (foldl (editDistance_inner s1 s2 0) (costs, lv) [0..<k]))[k := k]"
    by (simp add: editDistance_inner_def Let_def)
  also have "\<dots> = ([0..<k] @ drop k costs)[k := k]" by (simp only: ih)
  also have "\<dots> = [0..<k] @ (drop k costs)[0 := k]"
    by (simp add: list_update_append)
  also have "\<dots> = [0..<k] @ k # drop (Suc k) costs"
    using Suc.prems by (simp add: Cons_nth_drop_Suc[symmetric])
  finally show ?case by simp
qed

lemma outer_0:
  "length costs = Suc (length s2) \<Longrightarrow> editDistance_outer s1 s2 costs 0 = levRow s1 s2 0"
proof -
  assume l: "length costs = Suc (length s2)"
  have m: "map (lev s1 s2 0) [0..<Suc (length s2)] = [0..<Suc (length s2)]"
    by (rule nth_equalityI) (simp_all del: upt_Suc)
  from row0_fold[of "Suc (length s2)" costs s1 s2 0] l m show ?thesis
    by (simp add: editDistance_outer_def levRow_def Let_def del: upt_Suc)
qed

lemma outer_fold:
  "length costs = Suc (length s2) \<Longrightarrow>
   foldl (editDistance_outer s1 s2) costs [0..<Suc m] = levRow s1 s2 m"
proof (induction m)
  case 0
  then show ?case by (simp add: outer_0)
next
  case (Suc m)
  from Suc.IH[OF Suc.prems] show ?case by (simp add: outer_Suc)
qed

lemma editDistance_lev:
  "editDistance str1 str2 = lev (toLowerCase str1) (toLowerCase str2) (length str1) (length str2)"
proof -
  have l: "length (toLowerCase str1) = length str1" "length (toLowerCase str2) = length str2"
    by (simp_all add: toLowerCase_def)
  have "foldl (editDistance_outer (toLowerCase str1) (toLowerCase str2))
          (replicate (length (toLowerCase str2) + 1) 0) [0..<Suc (length (toLowerCase str1))]
        = levRow (toLowerCase str1) (toLowerCase str2) (length (toLowerCase str1))"
    by (rule outer_fold) simp
  then show ?thesis
    unfolding editDistance_def Let_def
    by (simp add: levRow_def l nth_append del: upt_Suc)
qed

lemma lev_sym: "lev s1 s2 i j = lev s2 s1 j i"
proof (induction s1 s2 i j rule: lev.induct)
  case (1 s1 s2 j)
  show ?case by (simp add: lev_zero_right)
next
  case (2 s1 s2 i)
  show ?case by simp
next
  case (3 s1 s2 i j)
  then show ?case by (auto simp: min.commute min.left_commute)
qed

lemma lev_same: "lev s s i i = 0"
  by (induction i) simp_all

lemma editDistance_sym: "editDistance a b = editDistance b a"
  by (simp add: editDistance_lev lev_sym[of "toLowerCase a"])

lemma editDistance_same: "editDistance s s = 0"
  by (simp add: editDistance_lev lev_same)

lemma calculateSimilarity_sym: "calculateSimilarity a b = calculateSimilarity b a"
proof (cases "length a = length b")
  case True
  then show ?thesis
    by (simp add: calculateSimilarity_def Let_def editDistance_sym[of a b])
next
  case False
  then show ?thesis
    by (auto simp: calculateSimilarity_def Let_def)
qed

lemma calculateSimilarity_same: "s \<noteq> [] \<Longrightarrow> calculateSimilarity s s = 1"
  by (simp add: calculateSimilarity_def Let_def editDistance_same)

lemma checkSimilarity_sym: "checkSimilarity v1 v2 th = checkSimilarity v2 v1 th"
proof -
  have "(case (originalUrl v1, originalUrl v2) of
           (Some u1, Some u2) \<Rightarrow> (if u1 \<noteq> [] \<and> u2 \<noteq> [] then calculateSimilarity u1 u2 else 0)
         | _ \<Rightarrow> 0)
      = (case (originalUrl v2, originalUrl v1) of
           (Some u1, Some u2) \<Rightarrow> (if u1 \<noteq> [] \<and> u2 \<noteq> [] then calculateSimilarity u1 u2 else 0)
         | _ \<Rightarrow> 0)"
    by (auto simp: calculateSimilarity_sym split: option.splits)
  then show ?thesis
    by (simp add: checkSimilarity_def Let_def calculateSimilarity_sym[of "classified.title v1"])
qed

lemma isDuplicate_identical_title:
  assumes "e \<in> set ex" and "classified.title e = classified.title c" and "classified.title c \<noteq> []"
    and "similarityThreshold svc < 1"
  shows "fst (isDuplicate svc c ex)"
proof -
  have "calculateSimilarity (classified.title c) (classified.title e) = 1"
    using assms(2,3) by (simp add: calculateSimilarity_same)
  then have "checkSimilarity c e (similarityThreshold svc)"
    using assms(4) by (simp add: checkSimilarity_def Let_def max_def)
  with assms(1) have "list_ex (\<lambda>e. checkSimilarity c e (similarityThreshold svc)) ex"
    by (auto simp: list_ex_iff)
  then show ?thesis by (simp add: isDuplicate_def Let_def)
qed

text \<open>
  C6. The claim says that two entries with identical inputs are always flagged, also
  when titles and URLs are empty. \<open>calculateSimilarity\<close> returns 0 as soon as one of
  its strings is empty (the test of the longer string's length, which would return 1,
  comes after it and is never reached), so a fresh service does not flag a candidate with
  empty title and URL against an existing entry equal to it. For titles that are not
  empty the claim holds: \<open>isDuplicate_identical_title\<close>, \<open>checkSimilarity_sym\<close>.
\<close>

theorem isDuplicate_empty_titles_not_flagged:
  "fst (isDuplicate newDuplicatePreventionService (demoCandidate '''' '''' '''')
         [demoCandidate '''' '''' '''']) = False
   \<and> calculateSimilarity [] [] = 0"
  by (simp add: isDuplicate_def newDuplicatePreventionService_def demoCandidate_def
        checkSimilarity_def calculateSimilarity_def js_def Let_def)

section \<open>The playback fallback engine\<close>








lemma loadVideo_available:
  assumes "classified.type v \<noteq> js ''direct''"
    and "fst (checkVideoAvailability (availabilityCache p) net (probedOfVideo v))"
  shows "loadVideo now net v p =
     (let p1 = track now E_load v p;
          p2 = p1\<lparr>videoManager := snd (loadVideoById now (videoManager p1) (recordId v))\<rparr>;
          p3 = p2\<lparr>fallbackShown := False, currentEmbedIndex := 0, currentVideoData := Some v,
                playbackStartTime := Some now\<rparr>;
          p4 = p3\<lparr>availabilityCache := snd (checkVideoAvailability (availabilityCache p) net (probedOfVideo v))\<rparr>;
          p5 = p4\<lparr>timers := timers p @ [\<lparr>t_id = nextTimer p, t_due = now + 10000, t_video = v\<rparr>],
                    nextTimer := nextTimer p + 1\<rparr>;
          p6 = p5\<lparr>installed := Some \<lparr>h_video = v, h_embedUrls = classified.embedUrls v, h_timer = nextTimer p\<rparr>\<rparr>
      in (setSrc (classified.embedUrls v) 0 p6)\<lparr>playerShown := True\<rparr>)"
  using assms
  by (simp add: loadVideo_def track_def Let_def case_prod_beta)

lemma loadVideo_unavailable:
  assumes "classified.type v \<noteq> js ''direct''"
    and "\<not> fst (checkVideoAvailability (availabilityCache p) net (probedOfVideo v))"
  shows "loadVideo now net v p =
     (let p1 = track now E_load v p;
          p2 = p1\<lparr>videoManager := snd (loadVideoById now (videoManager p1) (recordId v))\<rparr>;
          p3 = p2\<lparr>fallbackShown := False, currentEmbedIndex := 0, currentVideoData := Some v,
                playbackStartTime := Some now\<rparr>;
          p4 = p3\<lparr>availabilityCache := snd (checkVideoAvailability (availabilityCache p) net (probedOfVideo v))\<rparr>
      in showNotification M_mayNotBeAvailable N_warning (showFallbackMessage p4))"
  using assms
  by (simp add: loadVideo_def track_def Let_def case_prod_beta)





lemma demoEntry_not_direct: "classified.type demoEntry \<noteq> js ''direct''"
  by (simp add: demoEntry_def demoVideo_def js_inj)

lemma demoEntry_embedUrls:
  "classified.embedUrls demoEntry = [js ''https://e.example/1'', js ''https://e.example/2'']"
  by (simp add: demoEntry_def demoVideo_def)

lemma demoEntry_live:
  "fst (checkVideoAvailability (availabilityCache (newPlayer newManager)) liveNetwork (probedOfVideo demoEntry))"
  by (simp add: checkVideoAvailability_def availabilityTry_def checkDirectUrl_def liveNetwork_def
      probedOfVideo_def demoEntry_def demoVideo_def newPlayer_def templateString_def js_def Let_def)

lemma demoEntry_dead:
  "\<not> fst (checkVideoAvailability (availabilityCache (newPlayer newManager)) deadNetwork (probedOfVideo demoEntry))"
  by (simp add: checkVideoAvailability_def availabilityTry_def checkDirectUrl_def deadNetwork_def
      probedOfVideo_def demoEntry_def demoVideo_def newPlayer_def templateString_def js_def Let_def)



text \<open>
  The two conditions on the times are needed. When the first signal comes after the
  timeout of the session, the candidates are still set in order, but the fallback message
  is shown and stays: the session is not Loaded. And a timeout that an earlier load has
  left pending shows the fallback message in a later session whose signal is in time for
  its own timeout.
\<close>

lemma late_signal_shows_fallback:
  "srcLog (foldl fire (loadVideo 0 liveNetwork demoEntry (newPlayer newManager))
             (errorsAt [20000] @ [(30000, ViewerLoad)]))
     = [js ''https://e.example/1'', js ''https://e.example/2'']
   \<and> fallbackShown (foldl fire (loadVideo 0 liveNetwork demoEntry (newPlayer newManager))
             (errorsAt [20000] @ [(30000, ViewerLoad)]))
   \<and> \<not> sessionLoaded (foldl fire (loadVideo 0 liveNetwork demoEntry (newPlayer newManager))
             (errorsAt [20000] @ [(30000, ViewerLoad)]))"
  unfolding loadVideo_available[OF demoEntry_not_direct demoEntry_live]
  by (simp add: demoEntry_embedUrls errorsAt_def fire_def runTimers_def onError_def onLoad_def
      handleEmbedError_def clearTimeout_def track_def setSrc_def showNotification_def
      showFallbackMessage_def sessionLoaded_def newPlayer_def Let_def)

lemma demoEntry_live_again:
  "fst (checkVideoAvailability
          (availabilityCache (loadVideo 0 liveNetwork demoEntry (newPlayer newManager)))
          liveNetwork (probedOfVideo demoEntry))"
  unfolding loadVideo_available[OF demoEntry_not_direct demoEntry_live]
  by (simp add: checkVideoAvailability_def availabilityTry_def checkDirectUrl_def liveNetwork_def
      probedOfVideo_def demoEntry_def demoVideo_def newPlayer_def templateString_def js_def
      setSrc_def track_def Let_def)

lemma stale_timer_shows_fallback:
  "map t_due (timers (loadVideo 9000 liveNetwork demoEntry
                        (loadVideo 0 liveNetwork demoEntry (newPlayer newManager))))
     = [10000, 19000]
   \<and> fallbackShown (fire (loadVideo 9000 liveNetwork demoEntry
                        (loadVideo 0 liveNetwork demoEntry (newPlayer newManager)))
                      (10500, ViewerLoad))"
  unfolding loadVideo_available[OF demoEntry_not_direct demoEntry_live_again]
  unfolding loadVideo_available[OF demoEntry_not_direct demoEntry_live]
  by (simp add: fire_def runTimers_def onLoad_def clearTimeout_def track_def setSrc_def
      showNotification_def showFallbackMessage_def newPlayer_def Let_def)

lemma find_snoc_fresh:
  "\<forall>x \<in> set xs. \<not> P x \<Longrightarrow> P y \<Longrightarrow> find P (xs @ [y]) = Some y"
  by (induction xs) auto

lemma filter_snoc_fresh:
  "\<forall>x \<in> set xs. P x \<Longrightarrow> \<not> P y \<Longrightarrow> filter P (xs @ [y]) = xs"
  by (induction xs) auto

lemma filter_filter_fresh:
  "\<forall>x \<in> set xs. P x \<Longrightarrow> filter P (filter Q xs) = filter Q xs"
  by (induction xs) auto

lemma timers_runTimers: "timers (runTimers s q) = filter (\<lambda>x. s < t_due x) (timers q)"
proof (cases "filter (\<lambda>x. t_due x \<le> s) (timers q) = []")
  case True
  then have "\<forall>x \<in> set (timers q). s < t_due x"
    unfolding filter_empty_conv by auto
  then have "filter (\<lambda>x. s < t_due x) (timers q) = timers q" by simp
  with True show ?thesis by (simp add: runTimers_def)
next
  case False
  then show ?thesis by (simp add: runTimers_def showFallbackMessage_def)
qed

lemma runTimers_fields:
  "installed (runTimers s q) = installed q" "srcLog (runTimers s q) = srcLog q"
  "currentEmbedIndex (runTimers s q) = currentEmbedIndex q"
  by (simp_all add: runTimers_def showFallbackMessage_def)

text \<open>
  C2 (as amended). \<open>loadVideo\<close> arms one timer, due 10 seconds after the call. When it
  elapses before a signal of the viewer, the fallback message is shown at once: the
  session is Failed, no further candidate is set and the index stays 0. A load or an
  error signal cancels the timer and arms no other, so later candidates have no stall
  timer: after either event the timers pending are those that were pending before the
  call and are not due yet.
\<close>

theorem stall_timeout_shows_fallback:
  assumes nd: "classified.type v \<noteq> js ''direct''"
    and av: "fst (checkVideoAvailability (availabilityCache p) net (probedOfVideo v))"
    and old: "\<forall>x \<in> set (timers p). t_id x < nextTimer p"
    and due: "now + 10000 \<le> t"
  shows "find (\<lambda>x. t_id x = nextTimer p) (timers (loadVideo now net v p))
           = Some \<lparr>t_id = nextTimer p, t_due = now + 10000, t_video = v\<rparr>
       \<and> sessionFailed (fire (loadVideo now net v p) (t, TimeoutElapsed))
       \<and> srcLog (fire (loadVideo now net v p) (t, TimeoutElapsed))
           = srcLog (loadVideo now net v p)
       \<and> currentEmbedIndex (fire (loadVideo now net v p) (t, TimeoutElapsed)) = 0
       \<and> timers (fire (loadVideo now net v p) (t, TimeoutElapsed))
           = filter (\<lambda>x. t < t_due x) (timers p)
       \<and> timers (fire (loadVideo now net v p) (t', ViewerError))
           = filter (\<lambda>x. t' < t_due x) (timers p)
       \<and> timers (fire (loadVideo now net v p) (t', ViewerLoad))
           = filter (\<lambda>x. t' < t_due x) (timers p)"
proof -
  let ?p0 = "loadVideo now net v p"
  let ?tm = "\<lparr>t_id = nextTimer p, t_due = now + 10000, t_video = v\<rparr>"
  let ?h = "\<lparr>h_video = v, h_embedUrls = classified.embedUrls v, h_timer = nextTimer p\<rparr>"
  have tp: "timers ?p0 = timers p @ [?tm]"
    and ip: "installed ?p0 = Some ?h"
    and cp: "currentEmbedIndex ?p0 = 0"
    unfolding loadVideo_available[OF nd av] by (simp_all add: setSrc_def track_def Let_def)
  from old have o1: "\<forall>x \<in> set (timers p). \<not> t_id x = nextTimer p"
    and o2: "\<forall>x \<in> set (timers p). t_id x \<noteq> nextTimer p" by auto
  have fd: "find (\<lambda>x. t_id x = nextTimer p) (timers ?p0) = Some ?tm"
    unfolding tp by (rule find_snoc_fresh[OF o1]) simp
  have nf: "filter (\<lambda>x. t_due x \<le> t) (timers ?p0) \<noteq> []"
    unfolding tp using due by simp
  have to: "fire ?p0 (t, TimeoutElapsed)
              = showFallbackMessage (?p0\<lparr>timers := filter (\<lambda>x. t < t_due x) (timers ?p0)\<rparr>)"
    using nf by (simp add: fire_def runTimers_def)
  have ft: "filter (\<lambda>x. t < t_due x) (timers ?p0) = filter (\<lambda>x. t < t_due x) (timers p)"
    unfolding tp using due by simp
  have a: "sessionFailed (fire ?p0 (t, TimeoutElapsed))"
    "srcLog (fire ?p0 (t, TimeoutElapsed)) = srcLog ?p0"
    "currentEmbedIndex (fire ?p0 (t, TimeoutElapsed)) = 0"
    "timers (fire ?p0 (t, TimeoutElapsed)) = filter (\<lambda>x. t < t_due x) (timers p)"
    unfolding to using ft cp
    by (simp_all add: showFallbackMessage_def sessionFailed_def)
  have o3: "\<forall>x \<in> set (filter (\<lambda>x. t' < t_due x) (timers p)). t_id x \<noteq> nextTimer p"
    using o2 by simp
  have fl: "filter (\<lambda>x. t_id x \<noteq> nextTimer p) (filter (\<lambda>x. t' < t_due x) (timers ?p0))
              = filter (\<lambda>x. t' < t_due x) (timers p)"
  proof (cases "t' < now + 10000")
    case True
    then have "filter (\<lambda>x. t' < t_due x) (timers ?p0) = filter (\<lambda>x. t' < t_due x) (timers p) @ [?tm]"
      unfolding tp by simp
    then show ?thesis
      using filter_snoc_fresh[OF o3, of ?tm] by simp
  next
    case False
    then have "filter (\<lambda>x. t' < t_due x) (timers ?p0) = filter (\<lambda>x. t' < t_due x) (timers p)"
      unfolding tp by simp
    then show ?thesis
      using filter_filter_fresh[OF o2, of "\<lambda>x. t' < t_due x"] by simp
  qed
  have ir: "installed (runTimers t' ?p0) = Some ?h"
    using ip by (simp add: runTimers_fields)
  have e: "timers (fire ?p0 (t', ViewerError)) = filter (\<lambda>x. t' < t_due x) (timers p)"
    using ir fl
    by (simp add: fire_def onError_def handleEmbedError_def clearTimeout_def track_def
        setSrc_def showNotification_def showFallbackMessage_def timers_runTimers Let_def)
  have l: "timers (fire ?p0 (t', ViewerLoad)) = filter (\<lambda>x. t' < t_due x) (timers p)"
    using ir fl
    by (simp add: fire_def onLoad_def clearTimeout_def track_def showNotification_def
        timers_runTimers Let_def)
  from fd a e l show ?thesis by simp
qed

text \<open>
  The entry with two candidates: the timer 0 is due at 10000; an error at time 5 leaves no
  timer pending.
\<close>

theorem stall_timeout_shows_fallback_witness:
  "sessionFailed (fire (loadVideo 0 liveNetwork demoEntry (newPlayer newManager)) (10000, TimeoutElapsed))
   \<and> srcLog (fire (loadVideo 0 liveNetwork demoEntry (newPlayer newManager)) (10000, TimeoutElapsed))
       = srcLog (loadVideo 0 liveNetwork demoEntry (newPlayer newManager))
   \<and> timers (fire (loadVideo 0 liveNetwork demoEntry (newPlayer newManager)) (5, ViewerError)) = []"
proof -
  have old: "\<forall>x \<in> set (timers (newPlayer newManager)). t_id x < nextTimer (newPlayer newManager)"
    by (simp add: newPlayer_def)
  have due: "(0::int) + 10000 \<le> 10000" by simp
  have n: "nextTimer (newPlayer newManager) = 0" "timers (newPlayer newManager) = []"
    by (simp_all add: newPlayer_def)
  from stall_timeout_shows_fallback[OF demoEntry_not_direct demoEntry_live old due, of 5]
  show ?thesis by (simp add: n)
qed

text \<open>
  C2 as stated fails: with two candidates, the timeout on the first one ends the session
  Failed with the first candidate alone set, where an explicit error before the timeout
  sets the second candidate and the session goes on; and after that error no timer is
  pending.
\<close>

theorem stall_timeout_counterexample:
  "length (classified.embedUrls demoEntry) = 2
   \<and> srcLog (fire (loadVideo 0 liveNetwork demoEntry (newPlayer newManager)) (10000, TimeoutElapsed))
       = [js ''https://e.example/1'']
   \<and> sessionFailed (fire (loadVideo 0 liveNetwork demoEntry (newPlayer newManager)) (10000, TimeoutElapsed))
   \<and> srcLog (fire (loadVideo 0 liveNetwork demoEntry (newPlayer newManager)) (5000, ViewerError))
       = [js ''https://e.example/1'', js ''https://e.example/2'']
   \<and> \<not> sessionFailed (fire (loadVideo 0 liveNetwork demoEntry (newPlayer newManager)) (5000, ViewerError))
   \<and> timers (fire (loadVideo 0 liveNetwork demoEntry (newPlayer newManager)) (5000, ViewerError)) = []"
  unfolding loadVideo_available[OF demoEntry_not_direct demoEntry_live]
  by (simp add: demoEntry_embedUrls fire_def runTimers_def onError_def handleEmbedError_def
      clearTimeout_def track_def setSrc_def showNotification_def showFallbackMessage_def
      sessionFailed_def newPlayer_def Let_def)

text \<open>
  C3 (as amended). For an entry that is not direct, a probe result \<open>false\<close> blocks the
  playback: \<open>loadVideo\<close> sets no source, installs no handler and no timer, shows the
  fallback message and emits one warning; only the result \<open>true\<close> lets it set the first
  candidate. The probe itself returns a value: \<open>false\<close> when its body throws, and, when
  every request fails, \<open>false\<close> for every entry it sends a request for.
\<close>

theorem unavailable_blocks_playback:
  assumes nd: "classified.type v \<noteq> js ''direct''"
  shows "(\<not> fst (checkVideoAvailability (availabilityCache p) net (probedOfVideo v)) \<longrightarrow>
            srcLog (loadVideo now net v p) = srcLog p
          \<and> sessionFailed (loadVideo now net v p)
          \<and> notifications (loadVideo now net v p)
              = notifications p @ [(M_mayNotBeAvailable, N_warning)]
          \<and> timers (loadVideo now net v p) = timers p
          \<and> installed (loadVideo now net v p) = installed p)
       \<and> (fst (checkVideoAvailability (availabilityCache p) net (probedOfVideo v)) \<longrightarrow>
            srcLog (loadVideo now net v p)
              = srcLog p @ [if classified.embedUrls v = [] then js ''undefined''
                            else hd (classified.embedUrls v)]
          \<and> \<not> sessionFailed (loadVideo now net v p)
          \<and> notifications (loadVideo now net v p) = notifications p)
       \<and> (cch (js ''availability-'' @ templateString (p_id pv)) = None \<longrightarrow>
            availabilityTry net' pv = Inl e \<longrightarrow>
            checkVideoAvailability cch net' pv = (False, cch))
       \<and> (cch (js ''availability-'' @ recordId v') = None \<longrightarrow> (\<forall>m u. net' m u = None) \<longrightarrow>
            fst (checkVideoAvailability cch net' (probedOfVideo v'))
              = (\<not> prefix (js ''http'') (video.url v') \<and> classified.type v' \<noteq> js ''direct''
                 \<and> classified.type v' \<noteq> js ''youtube'' \<and> classified.type v' \<noteq> js ''drive''
                 \<and> classified.type v' \<noteq> js ''vimeo''))"
proof -
  have a: "srcLog (loadVideo now net v p) = srcLog p
          \<and> sessionFailed (loadVideo now net v p)
          \<and> notifications (loadVideo now net v p)
              = notifications p @ [(M_mayNotBeAvailable, N_warning)]
          \<and> timers (loadVideo now net v p) = timers p
          \<and> installed (loadVideo now net v p) = installed p"
    if "\<not> fst (checkVideoAvailability (availabilityCache p) net (probedOfVideo v))"
    unfolding loadVideo_unavailable[OF nd that]
    by (simp add: showNotification_def showFallbackMessage_def sessionFailed_def track_def Let_def)
  have b: "srcLog (loadVideo now net v p)
              = srcLog p @ [if classified.embedUrls v = [] then js ''undefined''
                            else hd (classified.embedUrls v)]
          \<and> \<not> sessionFailed (loadVideo now net v p)
          \<and> notifications (loadVideo now net v p) = notifications p"
    if "fst (checkVideoAvailability (availabilityCache p) net (probedOfVideo v))"
    unfolding loadVideo_available[OF nd that]
    by (cases "classified.embedUrls v")
       (simp_all add: setSrc_def sessionFailed_def track_def Let_def)
  have c: "checkVideoAvailability cch net' pv = (False, cch)"
    if "cch (js ''availability-'' @ templateString (p_id pv)) = None" "availabilityTry net' pv = Inl e"
    using that by (simp add: checkVideoAvailability_def Let_def)
  have d: "fst (checkVideoAvailability cch net' (probedOfVideo v'))
              = (\<not> prefix (js ''http'') (video.url v') \<and> classified.type v' \<noteq> js ''direct''
                 \<and> classified.type v' \<noteq> js ''youtube'' \<and> classified.type v' \<noteq> js ''drive''
                 \<and> classified.type v' \<noteq> js ''vimeo'')"
    if "cch (js ''availability-'' @ recordId v') = None" "\<forall>m u. net' m u = None"
    using that
    by (simp add: checkVideoAvailability_def availabilityTry_def checkDirectUrl_def
        checkWithFallback_def checkYouTubeAvailability_def checkDriveAvailability_def
        checkVimeoAvailability_def probedOfVideo_def templateString_def Let_def)
  from a b c d show ?thesis by blast
qed

text \<open>
  The entry on a network where every request fails, and on one that answers.
\<close>

theorem unavailable_blocks_playback_witness:
  "notifications (loadVideo 0 deadNetwork demoEntry (newPlayer newManager))
     = [(M_mayNotBeAvailable, N_warning)]
   \<and> srcLog (loadVideo 0 deadNetwork demoEntry (newPlayer newManager)) = []
   \<and> sessionFailed (loadVideo 0 deadNetwork demoEntry (newPlayer newManager))
   \<and> srcLog (loadVideo 0 liveNetwork demoEntry (newPlayer newManager)) = [js ''https://e.example/1'']"
proof -
  have n: "notifications (newPlayer newManager) = []" "srcLog (newPlayer newManager) = []"
    by (simp_all add: newPlayer_def)
  from unavailable_blocks_playback[OF demoEntry_not_direct, of "newPlayer newManager" deadNetwork 0]
    demoEntry_dead
  have a: "notifications (loadVideo 0 deadNetwork demoEntry (newPlayer newManager))
             = [(M_mayNotBeAvailable, N_warning)]"
          "srcLog (loadVideo 0 deadNetwork demoEntry (newPlayer newManager)) = []"
          "sessionFailed (loadVideo 0 deadNetwork demoEntry (newPlayer newManager))"
    by (simp_all add: n)
  from unavailable_blocks_playback[OF demoEntry_not_direct, of "newPlayer newManager" liveNetwork 0]
    demoEntry_live
  have b: "srcLog (loadVideo 0 liveNetwork demoEntry (newPlayer newManager)) = [js ''https://e.example/1'']"
    by (simp add: n demoEntry_embedUrls)
  from a b show ?thesis by simp
qed

text \<open>
  C3 as stated fails: on a network where every request fails the probe returns
  \<open>false\<close> and \<open>loadVideo\<close> attempts no candidate of the entry.
\<close>

theorem unavailable_counterexample:
  "classified.type demoEntry \<noteq> js ''direct''
   \<and> fst (checkVideoAvailability (availabilityCache (newPlayer newManager)) deadNetwork
            (probedOfVideo demoEntry)) = False
   \<and> srcLog (loadVideo 0 deadNetwork demoEntry (newPlayer newManager)) = []
   \<and> installed (loadVideo 0 deadNetwork demoEntry (newPlayer newManager)) = None
   \<and> fallbackShown (loadVideo 0 deadNetwork demoEntry (newPlayer newManager))"
  using demoEntry_not_direct demoEntry_dead
  unfolding loadVideo_unavailable[OF demoEntry_not_direct demoEntry_dead]
  by (simp add: showNotification_def showFallbackMessage_def track_def newPlayer_def Let_def)

section \<open>The URL classifier\<close>

lemma encodeURIComponent_latin1: "latin1 s \<Longrightarrow> \<exists>r. encodeURIComponent s = Inr r"
proof (induction s)
  case Nil
  then show ?case by simp
next
  case (Cons c s)
  then have c: "c \<le> 255" and s: "latin1 s" by (simp_all add: latin1_def)
  from Cons.IH[OF s] obtain r where r: "encodeURIComponent s = Inr r" by blast
  from c have "c < 55296" by simp
  with r show ?case by simp
qed

lemma btoaId_latin1: "latin1 s \<Longrightarrow> \<exists>r. btoaId s = Inr r"
  by (simp add: btoaId_def btoa_def latin1_def)

lemma firstMatch_None: "firstMatch rs u = None \<longleftrightarrow> \<not> anyMatch rs u"
  by (induction rs) (auto simp: anyMatch_def split: option.splits)

lemma parsed_simps:
  "classified.type (parsed vid ty us th ttl d) = js ty"
  "classified.embedUrls (parsed vid ty us th ttl d) = us"
  by (simp_all add: parsed_def)

lemma spec_youtube: "latin1 (origin loc) \<Longrightarrow> parserSpec loc P_youtube u"
proof -
  assume "latin1 (origin loc)"
  then obtain org where org: "encodeURIComponent (origin loc) = Inr org"
    using encodeURIComponent_latin1 by blast
  show ?thesis
  proof (cases "firstMatch youtubePatterns u")
    case None
    then show ?thesis
      using firstMatch_None[of youtubePatterns u]
      by (simp add: parserSpec_def parseYouTube_def)
  next
    case (Some caps)
    then have "anyMatch youtubePatterns u"
      using firstMatch_None[of youtubePatterns u] by auto
    with Some org show ?thesis
      by (simp add: parserSpec_def parseYouTube_def parsed_simps Let_def)
  qed
qed

lemma spec_drive: "parserSpec loc P_drive u"
proof (cases "firstMatch drivePatterns u")
  case None
  then show ?thesis
    using firstMatch_None[of drivePatterns u]
    by (simp add: parserSpec_def parseGoogleDrive_def)
next
  case (Some caps)
  then have "anyMatch drivePatterns u"
    using firstMatch_None[of drivePatterns u] by auto
  with Some show ?thesis
    by (simp add: parserSpec_def parseGoogleDrive_def parsed_simps Let_def)
qed

lemma spec_vimeo: "parserSpec loc P_vimeo u"
proof (cases "firstMatch vimeoPatterns u")
  case None
  then show ?thesis
    using firstMatch_None[of vimeoPatterns u]
    by (simp add: parserSpec_def parseVimeo_def)
next
  case (Some caps)
  then have "anyMatch vimeoPatterns u"
    using firstMatch_None[of vimeoPatterns u] by auto
  with Some show ?thesis
    by (simp add: parserSpec_def parseVimeo_def parsed_simps Let_def)
qed

lemma spec_dailymotion: "parserSpec loc P_dailymotion u"
proof (cases "firstMatch dailymotionPatterns u")
  case None
  then show ?thesis
    using firstMatch_None[of dailymotionPatterns u]
    by (simp add: parserSpec_def parseDailymotion_def)
next
  case (Some caps)
  then have "anyMatch dailymotionPatterns u"
    using firstMatch_None[of dailymotionPatterns u] by auto
  with Some show ?thesis
    by (simp add: parserSpec_def parseDailymotion_def parsed_simps Let_def)
qed

lemma spec_instagram: "parserSpec loc P_instagram u"
proof (cases "firstMatch instagramPatterns u")
  case None
  then show ?thesis
    using firstMatch_None[of instagramPatterns u]
    by (simp add: parserSpec_def parseInstagram_def)
next
  case (Some caps)
  then have "anyMatch instagramPatterns u"
    using firstMatch_None[of instagramPatterns u] by auto
  with Some show ?thesis
    by (simp add: parserSpec_def parseInstagram_def parsed_simps Let_def)
qed

lemma spec_facebook: "latin1 u \<Longrightarrow> parserSpec loc P_facebook u"
proof -
  assume l: "latin1 u"
  obtain e where e: "encodeURIComponent u = Inr e" using encodeURIComponent_latin1[OF l] by blast
  obtain b where b: "btoaId u = Inr b" using btoaId_latin1[OF l] by blast
  show ?thesis using e b by (simp add: parserSpec_def parseFacebook_def parsed_simps)
qed

lemma spec_twitter: "latin1 u \<Longrightarrow> parserSpec loc P_twitter u"
proof -
  assume l: "latin1 u"
  obtain e where e: "encodeURIComponent u = Inr e" using encodeURIComponent_latin1[OF l] by blast
  obtain b where b: "btoaId u = Inr b" using btoaId_latin1[OF l] by blast
  show ?thesis using e b by (simp add: parserSpec_def parseTwitter_def parsed_simps)
qed

lemma spec_tiktok: "parserSpec loc P_tiktok u"
  by (simp add: parserSpec_def parseTikTok_def parsed_simps Let_def)

lemma spec_twitch: "parserSpec loc P_twitch u"
  by (simp add: parserSpec_def parseTwitch_def parsed_simps anyMatch_def split: option.splits)

lemma spec_streamable: "parserSpec loc P_streamable u"
  by (simp add: parserSpec_def parseStreamable_def parsed_simps anyMatch_def split: option.splits)

lemma spec_dropbox: "parserSpec loc P_dropbox u"
  by (simp add: parserSpec_def parseDropbox_def parsed_simps anyMatch_def split: option.splits)

lemma spec_photos: "latin1 u \<Longrightarrow> parserSpec loc P_photos u"
proof -
  assume l: "latin1 u"
  obtain b where b: "btoaId u = Inr b" using btoaId_latin1[OF l] by blast
  show ?thesis using b by (simp add: parserSpec_def parseGooglePhotos_def parsed_simps)
qed

lemma spec_direct: "latin1 u \<Longrightarrow> parserSpec loc P_direct u"
proof -
  assume l: "latin1 u"
  obtain b where b: "btoaId u = Inr b" using btoaId_latin1[OF l] by blast
  show ?thesis using b by (simp add: parserSpec_def parseDirectVideo_def parsed_simps Let_def)
qed

lemma parserSpec_all: "latin1 u \<Longrightarrow> latin1 (origin loc) \<Longrightarrow> parserSpec loc P u"
  by (cases P)
     (simp_all add: spec_youtube spec_drive spec_vimeo spec_dailymotion spec_facebook
        spec_instagram spec_tiktok spec_twitter spec_twitch spec_streamable spec_dropbox
        spec_photos spec_direct)

lemma parsers_platformOrder: "parsers loc = map (parserOf loc) platformOrder"
  by (simp add: parsers_def platformOrder_def)

lemma tryParsers_find:
  assumes "\<And>P. parserSpec loc P u"
  shows "case find (\<lambda>P. matchesPlatform P u) ps of
           Some P \<Rightarrow> (\<exists>r. tryParsers (map (parserOf loc) ps) u = Inr (Some r)
                        \<and> classified.type r = platformType P u
                        \<and> classified.embedUrls r \<noteq> [] \<and> originalUrl r = Some u)
         | None \<Rightarrow> tryParsers (map (parserOf loc) ps) u = Inr None"
proof (induction ps)
  case Nil
  show ?case by simp
next
  case (Cons P ps)
  show ?case
  proof (cases "matchesPlatform P u")
    case True
    with assms[of P] obtain r where "parserOf loc P u = Inr (Some r)"
      "classified.type r = platformType P u" "classified.embedUrls r \<noteq> []"
      by (auto simp: parserSpec_def)
    with True show ?thesis by simp
  next
    case False
    with assms[of P] have "parserOf loc P u = Inr None" by (simp add: parserSpec_def)
    with False Cons.IH show ?thesis by (simp split: option.splits)
  qed
qed

text \<open>
  What \<open>parseURL\<close> does on a non-empty URL whose code units are all in Latin-1 (the
  origin of the page being such a string too): it returns a result. When the pattern of
  some platform matches the URL, the result has the type of the first platform, in the
  order of the parsers, whose pattern matches, at least one embed URL, and the input as
  its \<open>originalUrl\<close>; when no pattern matches, it has the type \<open>other\<close> and the URL
  as its only embed URL.
\<close>

lemma parseURL_first_match:
  assumes "u \<noteq> []" and "latin1 u" and "latin1 (origin loc)"
  shows "\<exists>r. parseURL loc u = Inr (Some r) \<and>
           (case find (\<lambda>P. matchesPlatform P u) platformOrder of
              Some P \<Rightarrow> classified.type r = platformType P u \<and> classified.embedUrls r \<noteq> []
                        \<and> originalUrl r = Some u
            | None \<Rightarrow> classified.type r = js ''other'' \<and> classified.embedUrls r = [u])"
proof -
  have sp: "\<And>P. parserSpec loc P u"
    by (rule parserSpec_all[OF assms(2,3)])
  note tf = tryParsers_find[of loc u platformOrder, OF sp]
  show ?thesis
  proof (cases "find (\<lambda>P. matchesPlatform P u) platformOrder")
    case None
    with tf have t: "tryParsers (parsers loc) u = Inr None"
      by (simp add: parsers_platformOrder)
    obtain b where "btoaId u = Inr b" using btoaId_latin1[OF assms(2)] by blast
    with t None assms(1) show ?thesis
      by (simp add: parseURL_def parseUnknown_def parsed_simps)
  next
    case (Some P)
    with tf obtain r where "tryParsers (parsers loc) u = Inr (Some r)"
      "classified.type r = platformType P u" "classified.embedUrls r \<noteq> []" "originalUrl r = Some u"
      by (auto simp: parsers_platformOrder)
    with Some assms(1) show ?thesis by (simp add: parseURL_def)
  qed
qed

lemma of_char_le_255: "(of_char c :: nat) \<le> 255"
proof -
  have "(of_char c :: nat) mod 256 = of_char c" by simp
  then have "(of_char c :: nat) < 256" by (metis mod_less_divisor zero_less_numeral)
  then show ?thesis by arith
qed

lemma latin1_js: "latin1 (js s)"
  by (simp add: latin1_def js_def list_all_iff of_char_le_255)

lemma latin1_Inr: "latin1 u \<Longrightarrow> \<exists>a b. encodeURIComponent u = Inr a \<and> btoaId u = Inr b"
  using encodeURIComponent_latin1 btoaId_latin1 by blast

lemmas eval_defs = js_def noneOf_def digitClass_def wordClass_def litGroup_def
  youtubePatterns_def drivePatterns_def vimeoPatterns_def dailymotionPatterns_def
  instagramPatterns_def twitchVideoPattern_def twitchClipPattern_def streamablePattern_def
  dropboxPattern_def anyMatch_def videoExtensions_def toLowerCase_def lowerUnit_def

text \<open>
  The URL \<open>https://youtu.be/abc123\<close> matches the first platform, YouTube, and does not
  contain \<open>playlist\<close>.
\<close>

lemma parseURL_first_match_youtube:
  "\<exists>r. parseURL demoLocation (js ''https://youtu.be/abc123'') = Inr (Some r)
       \<and> classified.type r = js ''youtube'' \<and> classified.embedUrls r \<noteq> []
       \<and> originalUrl r = Some (js ''https://youtu.be/abc123'')"
proof -
  have ne: "js ''https://youtu.be/abc123'' \<noteq> []" by (simp add: js_eq_Nil)
  have lo: "latin1 (origin demoLocation)" by (simp add: demoLocation_def latin1_js)
  have m: "matchesPlatform P_youtube (js ''https://youtu.be/abc123'')"
    by (simp add: eval_defs)
  have f: "find (\<lambda>P. matchesPlatform P (js ''https://youtu.be/abc123'')) platformOrder = Some P_youtube"
    using m by (simp add: platformOrder_def)
  have p: "\<not> str_includes (js ''https://youtu.be/abc123'') (js ''playlist'')"
    by (simp add: js_def)
  from parseURL_first_match[OF ne latin1_js lo] show ?thesis
    by (simp add: f p)
qed

section \<open>The parser of Dropbox\<close>

lemma str_includes_append: "str_includes s t \<longleftrightarrow> (\<exists>a b. s = a @ t @ b)"
proof (induction s)
  case Nil
  show ?case by auto
next
  case (Cons c s)
  have "(\<exists>a b. c # s = a @ t @ b) \<longleftrightarrow> (prefix t (c # s) \<or> (\<exists>a b. s = a @ t @ b))"
  proof
    assume "\<exists>a b. c # s = a @ t @ b"
    then obtain a b where ab: "c # s = a @ t @ b" by blast
    show "prefix t (c # s) \<or> (\<exists>a b. s = a @ t @ b)"
    proof (cases a)
      case Nil
      with ab show ?thesis by (simp add: prefix_def)
    next
      case (Cons x a')
      with ab have "s = a' @ t @ b" by simp
      then show ?thesis by blast
    qed
  next
    assume "prefix t (c # s) \<or> (\<exists>a b. s = a @ t @ b)"
    then show "\<exists>a b. c # s = a @ t @ b"
    proof
      assume "prefix t (c # s)"
      then obtain b where "c # s = t @ b" by (auto simp: prefix_def)
      then have "c # s = [] @ t @ b" by simp
      then show ?thesis by blast
    next
      assume "\<exists>a b. s = a @ t @ b"
      then obtain a b where "s = a @ t @ b" by blast
      then have "c # s = (c # a) @ t @ b" by simp
      then show ?thesis by blast
    qed
  qed
  with Cons.IH show ?case by simp
qed

lemma rmatch_Seq_Lit: "rmatch (Seq (Lit l) r) s caps \<noteq> [] \<Longrightarrow> prefix l s"
  by (simp split: if_splits)

lemma str_match_Seq_Lit: "str_match (Seq (Lit l) r) u = Some caps \<Longrightarrow> str_includes u l"
proof (induction u)
  case Nil
  then have "rmatch (Seq (Lit l) r) [] [] \<noteq> []"
    by (auto simp del: rmatch.simps split: list.splits)
  from rmatch_Seq_Lit[OF this] show ?case by simp
next
  case (Cons c s)
  show ?case
  proof (cases "rmatch (Seq (Lit l) r) (c # s) [] = []")
    case True
    with Cons.prems have "str_match (Seq (Lit l) r) s = Some caps"
      by (simp del: rmatch.simps)
    from Cons.IH[OF this] show ?thesis by simp
  next
    case False
    from rmatch_Seq_Lit[OF this] show ?thesis by simp
  qed
qed

text \<open>
  Every URL that the pattern of \<open>parseDropbox\<close> matches holds \<open>dropbox.com/s/\<close> and
  with it \<open>x.com\<close>, which is what \<open>parseTwitter\<close>, three places earlier in the array
  of the parsers, looks for.
\<close>

lemma dropbox_includes_x_com:
  assumes "str_match dropboxPattern u = Some m"
  shows "str_includes u (js ''x.com'')"
proof -
  from assms have "str_includes u (js ''dropbox.com/s/'')"
    unfolding dropboxPattern_def by (rule str_match_Seq_Lit)
  then obtain a b where "u = a @ js ''dropbox.com/s/'' @ b"
    unfolding str_includes_append by blast
  moreover have "js ''dropbox.com/s/'' = js ''dropbo'' @ js ''x.com'' @ js ''/s/''"
    by (simp add: js_def)
  ultimately have "u = (a @ js ''dropbo'') @ js ''x.com'' @ (js ''/s/'' @ b)" by simp
  then show ?thesis unfolding str_includes_append by blast
qed

lemma dropbox_matches_twitter: "matchesPlatform P_dropbox u \<Longrightarrow> matchesPlatform P_twitter u"
  by (auto simp: anyMatch_def dest: dropbox_includes_x_com)

lemma parser_type:
  "parserOf loc P u = Inr (Some r) \<Longrightarrow> classified.type r = platformType P u"
proof (cases P)
  case P_youtube
  assume "parserOf loc P u = Inr (Some r)"
  with P_youtube show ?thesis
    by (auto simp: parseYouTube_def parsed_simps Let_def split: option.splits sum.splits if_splits)
next
  case P_drive
  assume "parserOf loc P u = Inr (Some r)"
  with P_drive show ?thesis
    by (auto simp: parseGoogleDrive_def parsed_simps Let_def split: option.splits)
next
  case P_vimeo
  assume "parserOf loc P u = Inr (Some r)"
  with P_vimeo show ?thesis
    by (auto simp: parseVimeo_def parsed_simps Let_def split: option.splits)
next
  case P_dailymotion
  assume "parserOf loc P u = Inr (Some r)"
  with P_dailymotion show ?thesis
    by (auto simp: parseDailymotion_def parsed_simps Let_def split: option.splits)
next
  case P_facebook
  assume "parserOf loc P u = Inr (Some r)"
  with P_facebook show ?thesis
    by (auto simp: parseFacebook_def parsed_simps split: sum.splits if_splits)
next
  case P_instagram
  assume "parserOf loc P u = Inr (Some r)"
  with P_instagram show ?thesis
    by (auto simp: parseInstagram_def parsed_simps Let_def split: option.splits)
next
  case P_tiktok
  assume "parserOf loc P u = Inr (Some r)"
  with P_tiktok show ?thesis
    by (auto simp: parseTikTok_def parsed_simps Let_def split: if_splits)
next
  case P_twitter
  assume "parserOf loc P u = Inr (Some r)"
  with P_twitter show ?thesis
    by (auto simp: parseTwitter_def parsed_simps split: sum.splits if_splits)
next
  case P_twitch
  assume "parserOf loc P u = Inr (Some r)"
  with P_twitch show ?thesis
    by (auto simp: parseTwitch_def parsed_simps split: option.splits)
next
  case P_streamable
  assume "parserOf loc P u = Inr (Some r)"
  with P_streamable show ?thesis
    by (auto simp: parseStreamable_def parsed_simps split: option.splits)
next
  case P_dropbox
  assume "parserOf loc P u = Inr (Some r)"
  with P_dropbox show ?thesis
    by (auto simp: parseDropbox_def parsed_simps split: option.splits)
next
  case P_photos
  assume "parserOf loc P u = Inr (Some r)"
  with P_photos show ?thesis
    by (auto simp: parseGooglePhotos_def parsed_simps split: sum.splits if_splits)
next
  case P_direct
  assume "parserOf loc P u = Inr (Some r)"
  with P_direct show ?thesis
    by (auto simp: parseDirectVideo_def parsed_simps Let_def split: sum.splits if_splits)
qed

lemma tryParsers_Some:
  "tryParsers (map (parserOf loc) ps) u = Inr (Some r)
   \<Longrightarrow> \<exists>P r'. find (\<lambda>P. parserOf loc P u \<noteq> Inr None) ps = Some P
              \<and> parserOf loc P u = Inr (Some r') \<and> classified.type r = classified.type r'"
proof (induction ps)
  case Nil
  then show ?case by simp
next
  case (Cons P ps)
  show ?case
  proof (cases "parserOf loc P u")
    case (Inl e)
    with Cons.prems show ?thesis by simp
  next
    case (Inr res)
    show ?thesis
    proof (cases res)
      case None
      with Inr Cons.prems have "tryParsers (map (parserOf loc) ps) u = Inr (Some r)" by simp
      from Cons.IH[OF this] None Inr show ?thesis by simp
    next
      case (Some r')
      with Inr Cons.prems have "r = r'\<lparr>originalUrl := Some u\<rparr>" by simp
      then have "classified.type r = classified.type r'" by simp
      with Some Inr show ?thesis by simp
    qed
  qed
qed

lemma platformType_dropbox: "platformType P u = js ''dropbox'' \<Longrightarrow> P = P_dropbox"
  by (cases P) (simp_all add: js_inj split: if_splits)

text \<open>
  So \<open>parseDropbox\<close> never gives the result of \<open>parseURL\<close>: whatever the URL and the
  page, no result of \<open>parseURL\<close> has the type \<open>dropbox\<close>.
\<close>

lemma parseURL_never_dropbox:
  assumes "parseURL loc u = Inr (Some r)"
  shows "classified.type r \<noteq> js ''dropbox''"
proof
  assume ty: "classified.type r = js ''dropbox''"
  from assms have ne: "u \<noteq> []" by (auto simp: parseURL_def)
  show False
  proof (cases "tryParsers (parsers loc) u")
    case (Inl e)
    with assms ne show False by (simp add: parseURL_def)
  next
    case (Inr res)
    show False
    proof (cases res)
      case None
      with Inr assms ne have "parseUnknown u = Inr r"
        by (simp add: parseURL_def split: sum.splits)
      then have "classified.type r = js ''other''"
        by (auto simp: parseUnknown_def parsed_simps split: sum.splits)
      with ty show False by (simp add: js_inj)
    next
      case (Some r0)
      with Inr assms ne have "r0 = r" by (simp add: parseURL_def)
      with Some Inr have "tryParsers (map (parserOf loc) platformOrder) u = Inr (Some r)"
        by (simp add: parsers_platformOrder)
      from tryParsers_Some[OF this] obtain P r'
        where f: "find (\<lambda>P. parserOf loc P u \<noteq> Inr None) platformOrder = Some P"
          and p: "parserOf loc P u = Inr (Some r')" and t: "classified.type r = classified.type r'"
        by blast
      from parser_type[OF p] t ty have "P = P_dropbox"
        by (simp add: platformType_dropbox)
      with f have tw: "parseTwitter u = Inr None"
        by (simp add: platformOrder_def split: if_splits)
      from p \<open>P = P_dropbox\<close> obtain m where "str_match dropboxPattern u = Some m"
        by (auto simp: parseDropbox_def split: option.splits)
      from dropbox_includes_x_com[OF this] tw show False
        by (simp add: parseTwitter_def split: sum.splits)
    qed
  qed
qed

text \<open>
  C8 does not hold of the code. The URL \<open>https://www.dropbox.com/s/abc/file.mp4?dl=0\<close>
  matches the pattern of Dropbox, and \<open>parseDropbox\<close> gives it the type \<open>dropbox\<close>
  and the identifier \<open>abc\<close>; but \<open>parseURL\<close> returns the type \<open>twitter\<close> for it,
  with the embed URLs of a tweet, since \<open>parseTwitter\<close> comes first and accepts every
  URL that contains \<open>x.com\<close>.
\<close>

theorem parseURL_dropbox_typed_twitter:
  "matchesPlatform P_dropbox (js ''https://www.dropbox.com/s/abc/file.mp4?dl=0'')
   \<and> (\<exists>d. parseDropbox (js ''https://www.dropbox.com/s/abc/file.mp4?dl=0'') = Inr (Some d)
          \<and> classified.type d = js ''dropbox'' \<and> classified.videoId d = js ''abc'')
   \<and> (\<exists>r. parseURL demoLocation (js ''https://www.dropbox.com/s/abc/file.mp4?dl=0'') = Inr (Some r)
          \<and> classified.type r = js ''twitter''
          \<and> hd (classified.embedUrls r)
              = js ''https://twitframe.com/show?url=https%3A%2F%2Fwww.dropbox.com%2Fs%2Fabc%2Ffile.mp4%3Fdl%3D0'')"
proof -
  let ?u = "js ''https://www.dropbox.com/s/abc/file.mp4?dl=0''"
  have m: "str_match dropboxPattern ?u = Some [js ''abc'', js ''file.mp4'']"
    by (simp add: eval_defs)
  have d: "matchesPlatform P_dropbox ?u"
    using m by (simp add: anyMatch_def)
  have pd: "\<exists>d. parseDropbox ?u = Inr (Some d) \<and> classified.type d = js ''dropbox''
              \<and> classified.videoId d = js ''abc''"
    using m by (simp add: parseDropbox_def parsed_def)
  have u1: "firstMatch youtubePatterns ?u = None" by (simp add: eval_defs)
  have u2: "firstMatch drivePatterns ?u = None" by (simp add: eval_defs)
  have u3: "firstMatch vimeoPatterns ?u = None" by (simp add: eval_defs)
  have u4: "firstMatch dailymotionPatterns ?u = None" by (simp add: eval_defs)
  have u5: "\<not> str_includes ?u (js ''facebook.com'')" "\<not> str_includes ?u (js ''fb.watch'')"
    by (simp_all add: js_def)
  have u6: "firstMatch instagramPatterns ?u = None" by (simp add: eval_defs)
  have u7: "\<not> str_includes ?u (js ''tiktok.com'')" by (simp add: js_def)
  have u8: "str_includes ?u (js ''x.com'')" by (simp add: js_def)
  have en: "encodeURIComponent ?u = Inr (js ''https%3A%2F%2Fwww.dropbox.com%2Fs%2Fabc%2Ffile.mp4%3Fdl%3D0'')"
    by (simp add: js_def unreserved_def percent_def utf8_def hexDigit_def)
  obtain b where b: "btoaId ?u = Inr b"
    using btoaId_latin1[OF latin1_js] by blast
  have t: "\<exists>r. parseURL demoLocation ?u = Inr (Some r) \<and> classified.type r = js ''twitter''
             \<and> hd (classified.embedUrls r)
                 = js ''https://twitframe.com/show?url=https%3A%2F%2Fwww.dropbox.com%2Fs%2Fabc%2Ffile.mp4%3Fdl%3D0''"
    using u1 u2 u3 u4 u5 u6 u7 u8 en b
    by (simp add: parseURL_def parsers_def parseYouTube_def parseGoogleDrive_def parseVimeo_def
        parseDailymotion_def parseFacebook_def parseInstagram_def parseTikTok_def
        parseTwitter_def parsed_simps js_eq_Nil js_def)
  from d pd t show ?thesis by blast
qed

text \<open>
  Nor does \<open>parseURL\<close> return a result for every non-empty string: on a URL that matches
  no pattern and holds the code unit U+20AC, \<open>parseUnknown\<close> throws, since \<open>btoa\<close>
  accepts Latin-1 only.
\<close>

lemma parseURL_throws_outside_latin1:
  "parseURL demoLocation (js ''https://example.org/'' @ [8364]) = Inl InvalidCharacterError"
proof -
  let ?w = "js ''https://example.org/'' @ [8364]"
  have w1: "firstMatch youtubePatterns ?w = None" by (simp add: eval_defs)
  have w2: "firstMatch drivePatterns ?w = None" by (simp add: eval_defs)
  have w3: "firstMatch vimeoPatterns ?w = None" by (simp add: eval_defs)
  have w4: "firstMatch dailymotionPatterns ?w = None" by (simp add: eval_defs)
  have w5: "\<not> str_includes ?w (js ''facebook.com'')" "\<not> str_includes ?w (js ''fb.watch'')"
    by (simp_all add: js_def)
  have w6: "firstMatch instagramPatterns ?w = None" by (simp add: eval_defs)
  have w7: "\<not> str_includes ?w (js ''tiktok.com'')" by (simp add: js_def)
  have w8: "\<not> str_includes ?w (js ''twitter.com'')" "\<not> str_includes ?w (js ''x.com'')"
    by (simp_all add: js_def)
  have w9: "str_match twitchVideoPattern ?w = None" "str_match twitchClipPattern ?w = None"
    by (simp_all add: eval_defs)
  have w10: "str_match streamablePattern ?w = None" by (simp add: eval_defs)
  have w11: "str_match dropboxPattern ?w = None" by (simp add: eval_defs)
  have w12: "\<not> str_includes ?w (js ''photos.app.goo.gl'')" "\<not> str_includes ?w (js ''photos.google.com'')"
    by (simp_all add: js_def)
  have w13: "\<not> list_ex (\<lambda>ext. str_includes (toLowerCase ?w) ext) videoExtensions"
    by (simp add: eval_defs)
  have w14: "btoaId ?w = Inl InvalidCharacterError"
    by (simp add: btoaId_def btoa_def)
  show ?thesis
    using w1 w2 w3 w4 w5 w6 w7 w8 w9 w10 w11 w12 w13 w14
    by (simp add: parseURL_def parsers_def parseYouTube_def parseGoogleDrive_def parseVimeo_def
        parseDailymotion_def parseFacebook_def parseInstagram_def parseTikTok_def
        parseTwitter_def parseTwitch_def parseStreamable_def parseDropbox_def
        parseGooglePhotos_def parseDirectVideo_def parseUnknown_def)
qed

end
